theory Spec2Isabelle
  imports Main "HOL-Library.Sublist"
begin

section \<open>JavaScript strings and errors\<close>

text \<open>
  A string is the list of the UTF-8 bytes of the JavaScript string, which is what
  \<open>Buffer.from\<close> yields. The agent's keywords, SQL templates and category names are all
  ASCII, and an ASCII byte never occurs inside the encoding of another character, so
  concatenation, emptiness and the search for an ASCII text (\<open>includes\<close>) on the bytes
  agree with those on the JavaScript string.
\<close>

text \<open>
  A thrown JavaScript error object: its constructor name, its \<open>message\<close>, and the
  optional \<open>code\<close> (set by the database driver) and \<open>status\<close> (set by the
  HTTP client of the text-generation model) fields the agent inspects.
\<close>

datatype js_error =
  JsError (err_name: string) (err_message: string) (err_code: "string option")
    (err_status: "nat option")

text \<open>
  The built-in functions of the JavaScript engine that the agent calls on strings and
  on result rows: \<open>String.prototype.toUpperCase\<close>, \<open>toLowerCase\<close> and \<open>trim\<close>, which
  follow the Unicode tables (\<open>toUpperCase\<close> maps U+0131 to \<open>I\<close>, U+017F to \<open>S\<close> and
  U+00DF to \<open>SS\<close>; \<open>toLowerCase\<close> maps U+212A to \<open>k\<close>; \<open>trim\<close> also removes U+00A0,
  U+FEFF, U+2028, U+2029 and the Unicode spaces), and \<open>JSON.stringify\<close> on a list of
  rows (a row is named by a text, see below), which either returns the serialised text
  or throws. They are parameters of the model: every function of the agent that calls
  one of them takes the record \<open>js\<close>, so that what is proved for every \<open>js\<close> holds for
  the engine's functions.
\<close>

record builtins =
  toUpperCase :: "string \<Rightarrow> string"
  toLowerCase :: "string \<Rightarrow> string"
  trim :: "string \<Rightarrow> string"
  stringify :: "string list \<Rightarrow> js_error + string"

text \<open>
  The built-ins on ASCII text, where the engine's functions are: case conversion of the
  letters \<open>a\<close>..\<open>z\<close> and \<open>A\<close>..\<open>Z\<close>; removal of space, tab, line feed, vertical tab,
  form feed and carriage return from both ends. With them goes a serialisation that
  returns for every list of rows (the rows' names in brackets, separated by commas; the
  serialised text only enters the prompt, which is not part of the model). They are
  used where the agent is run on a concrete ASCII input.
\<close>

definition asciiToUpperCase_char :: "char \<Rightarrow> char" where
  "asciiToUpperCase_char c =
     (case map_of (zip ''abcdefghijklmnopqrstuvwxyz'' ''ABCDEFGHIJKLMNOPQRSTUVWXYZ'') c of
        Some u \<Rightarrow> u
      | None \<Rightarrow> c)"

definition asciiToUpperCase :: "string \<Rightarrow> string" where
  "asciiToUpperCase s = map asciiToUpperCase_char s"

definition asciiToLowerCase_char :: "char \<Rightarrow> char" where
  "asciiToLowerCase_char c =
     (case map_of (zip ''ABCDEFGHIJKLMNOPQRSTUVWXYZ'' ''abcdefghijklmnopqrstuvwxyz'') c of
        Some l \<Rightarrow> l
      | None \<Rightarrow> c)"

definition asciiToLowerCase :: "string \<Rightarrow> string" where
  "asciiToLowerCase s = map asciiToLowerCase_char s"

definition isWhiteSpace :: "char \<Rightarrow> bool" where
  "isWhiteSpace c = (c \<in> set [CHR '' '', CHR 0x09, CHR 0x0A, CHR 0x0B, CHR 0x0C, CHR 0x0D])"

definition asciiTrim :: "string \<Rightarrow> string" where
  "asciiTrim s = rev (dropWhile isWhiteSpace (rev (dropWhile isWhiteSpace s)))"

fun joinWith :: "string \<Rightarrow> string list \<Rightarrow> string" where
  "joinWith sep [] = []"
| "joinWith sep [x] = x"
| "joinWith sep (x # y # ys) = x @ sep @ joinWith sep (y # ys)"

definition asciiStringify :: "string list \<Rightarrow> js_error + string" where
  "asciiStringify rows = Inr (''['' @ joinWith '','' rows @ '']'')"

definition asciiBuiltins :: builtins where
  "asciiBuiltins =
     \<lparr>toUpperCase = asciiToUpperCase, toLowerCase = asciiToLowerCase, trim = asciiTrim,
      stringify = asciiStringify\<rparr>"

text \<open>
  \<open>String.prototype.includes\<close>: the second string occurs in the first as a contiguous
  run, at some position. (\<open>includes\<close> is a reserved word of the theory language.)
\<close>

fun js_includes :: "'a list \<Rightarrow> 'a list \<Rightarrow> bool" where
  "js_includes [] t = (t = [])"
| "js_includes (c # cs) t = (prefix t (c # cs) \<or> js_includes cs t)"

section \<open>Query Guard\<close>

text \<open>
  \<open>validateAndOptimizeQuery\<close> (advancedSqlAgent.js, lines 582-603). The \<open>for\<close> loop
  throws at the first blocklisted keyword, in list order, that the uppercased text
  contains; \<open>find\<close> returns that keyword. A throw is \<open>Inl\<close>, a return is \<open>Inr\<close>.
\<close>

definition dangerousKeywords :: "string list" where
  "dangerousKeywords =
     [''DROP'', ''DELETE'', ''TRUNCATE'', ''ALTER'', ''CREATE'', ''INSERT'', ''UPDATE'']"

definition validateAndOptimizeQuery :: "builtins \<Rightarrow> string \<Rightarrow> js_error + string" where
  "validateAndOptimizeQuery js query =
     (let queryUpper = toUpperCase js query in
      case find (\<lambda>keyword. js_includes queryUpper keyword) dangerousKeywords of
        Some keyword \<Rightarrow>
          Inl (JsError ''Error'' (''Query contains prohibited keyword: '' @ keyword) None None)
      | None \<Rightarrow>
          Inr (if \<not> js_includes queryUpper ''LIMIT'' \<and> js_includes queryUpper ''SELECT''
               then (if \<not> js_includes queryUpper ''COUNT('' \<and> \<not> js_includes queryUpper ''SUM(''
                        \<and> \<not> js_includes queryUpper ''AVG(''
                        \<and> \<not> js_includes queryUpper ''GROUP BY''
                     then query @ '' LIMIT 100''
                     else query)
               else query))"


section \<open>Agent state and its environment\<close>

text \<open>
  A result row is named by a text; \<open>rows.length\<close> is the length of the row list.
  One call of \<open>connectionPool.execute\<close> resolves with rows (\<open>Rows\<close>), resolves
  with a result header (\<open>Header\<close>) or rejects with an error; one call of the
  text-generation model either yields text or rejects.
\<close>

type_synonym row = string

text \<open>
  What \<open>connectionPool.execute\<close> resolves with: an array of rows for a statement
  that returns rows, and for any other statement (\<open>SET\<close>, \<open>DO\<close>,
  \<open>REPLACE\<close>, ...) a result header, an object that is not an array and has neither
  \<open>length\<close> nor \<open>slice\<close>. \<open>valueLength\<close> is the \<open>length\<close> property:
  \<open>None\<close> is \<open>undefined\<close>.
\<close>

datatype query_value = RowArray "row list" | ResultHeader

fun valueLength :: "query_value \<Rightarrow> nat option" where
  "valueLength (RowArray rows) = Some (length rows)"
| "valueLength ResultHeader = None"

datatype db_outcome = Rows "row list" | Header | Fails js_error

datatype llm_outcome = LlmText string | LlmFails js_error

text \<open>
  What the agent does to the outside, in order: statements sent to the pool,
  \<open>setTimeout\<close> waits (milliseconds), the pool's tear-down and re-creation, and calls
  of the text-generation model.
\<close>

datatype event = Execute string | Delay nat | PoolEnd | InitializeDatabase | GenerateContent

record cache_entry =
  result :: "row list"
  timestamp :: int

text \<open>
  An entry of \<open>this.queryHistory\<close>. Its \<open>query\<close> field, the statement cut to 200 UTF-16
  code units, is left out: nothing the agent does depends on it. \<open>h_rowCount = None\<close>
  is a row count of \<open>undefined\<close>.
\<close>

record history_entry =
  h_timestamp :: int
  h_success :: bool
  h_executionTime :: int
  h_rowCount :: "nat option"
  h_error :: "string option"

text \<open>
  The counters of \<open>this.metrics\<close>. The field \<open>averageExecutionTime\<close> is a
  floating-point running mean that no control flow reads; it is left out.
\<close>

record metrics =
  totalQueries :: nat
  successfulQueries :: nat
  failedQueries :: nat
  cacheHits :: nat

text \<open>
  The agent's fields (\<open>queryCache\<close>, \<open>queryHistory\<close>, \<open>metrics\<close>, the keys of
  \<open>tableSchemas\<close>) together with its environment. A JavaScript \<open>Map\<close> is an association
  list in insertion order. The environment answers by call number: \<open>clock\<close> gives the
  value of the n-th reading of the system time (\<open>Date.now()\<close>, \<open>new Date()\<close>), \<open>pool\<close> the
  outcome of the n-th \<open>connectionPool.execute\<close> for the statement sent, \<open>llm\<close> the
  outcome of the n-th \<open>generateContent\<close> call; \<open>poolEndFails\<close> says whether
  \<open>connectionPool.end()\<close> rejects. Execution is sequential: one operation runs to
  completion before the next starts.
\<close>

record world =
  queryCache :: "(string \<times> cache_entry) list"
  queryHistory :: "history_entry list"
  metrics :: metrics
  tableSchemas :: "string list"
  clock :: "nat \<Rightarrow> int"
  clockReads :: nat
  pool :: "nat \<Rightarrow> string \<Rightarrow> db_outcome"
  executeCalls :: nat
  poolEndFails :: bool
  llm :: "nat \<Rightarrow> llm_outcome"
  llmCalls :: nat
  trace :: "event list"

definition now :: "world \<Rightarrow> int \<times> world" where
  "now w = (clock w (clockReads w), w\<lparr>clockReads := Suc (clockReads w)\<rparr>)"

definition pool_execute :: "string \<Rightarrow> world \<Rightarrow> db_outcome \<times> world" where
  "pool_execute sql w =
     (pool w (executeCalls w) sql,
      w\<lparr>executeCalls := Suc (executeCalls w), trace := trace w @ [Execute sql]\<rparr>)"

definition generateContent :: "world \<Rightarrow> llm_outcome \<times> world" where
  "generateContent w =
     (llm w (llmCalls w),
      w\<lparr>llmCalls := Suc (llmCalls w), trace := trace w @ [GenerateContent]\<rparr>)"

definition wait :: "nat \<Rightarrow> world \<Rightarrow> world" where
  "wait ms w = w\<lparr>trace := trace w @ [Delay ms]\<rparr>"

subsection \<open>The operations of a JavaScript Map\<close>

definition map_get :: "('k \<times> 'v) list \<Rightarrow> 'k \<Rightarrow> 'v option" where
  "map_get m k = map_of m k"

text \<open>\<open>set\<close> replaces the value of a key in place, or appends a new key at the end.\<close>

fun map_set :: "('k \<times> 'v) list \<Rightarrow> 'k \<Rightarrow> 'v \<Rightarrow> ('k \<times> 'v) list" where
  "map_set [] k v = [(k, v)]"
| "map_set (p # ps) k v = (if fst p = k then (k, v) # ps else p # map_set ps k v)"

definition map_delete :: "('k \<times> 'v) list \<Rightarrow> 'k \<Rightarrow> ('k \<times> 'v) list" where
  "map_delete m k = filter (\<lambda>p. fst p \<noteq> k) m"

section \<open>Cache key\<close>

text \<open>
  \<open>generateCacheKey\<close> (lines 832-834):
  \<open>Buffer.from(query).toString('base64').substring(0, 50)\<close>. Base64 (RFC 4648) turns
  each group of three bytes into four characters of the alphabet and pads the last
  group with \<open>=\<close>.
\<close>

definition base64_alphabet :: string where
  "base64_alphabet = ''ABCDEFGHIJKLMNOPQRSTUVWXYZabcdefghijklmnopqrstuvwxyz0123456789+/''"

definition base64_char :: "nat \<Rightarrow> char" where
  "base64_char n = base64_alphabet ! n"

fun toBase64 :: "string \<Rightarrow> string" where
  "toBase64 [] = []"
| "toBase64 [a] =
     (let x = (of_char a :: nat)
      in [base64_char (x div 4), base64_char ((x mod 4) * 16), CHR ''='', CHR ''=''])"
| "toBase64 [a, b] =
     (let x = (of_char a :: nat); y = (of_char b :: nat)
      in [base64_char (x div 4), base64_char ((x mod 4) * 16 + y div 16),
          base64_char ((y mod 16) * 4), CHR ''=''])"
| "toBase64 (a # b # c # rest) =
     (let x = (of_char a :: nat); y = (of_char b :: nat); z = (of_char c :: nat)
      in [base64_char (x div 4), base64_char ((x mod 4) * 16 + y div 16),
          base64_char ((y mod 16) * 4 + z div 64), base64_char (z mod 64)])
     @ toBase64 rest"

definition generateCacheKey :: "string \<Rightarrow> string" where
  "generateCacheKey query = take 50 (toBase64 query)"

section \<open>Execution with retry\<close>

text \<open>
  \<open>executeQuery\<close> (lines 70-108). \<open>executeQuery_from retryCount\<close> is the \<open>while\<close> loop
  entered with the given \<open>retryCount\<close>; a rejected attempt with a connection error code
  and \<open>retryCount < maxRetries - 1\<close> increments \<open>retryCount\<close>, waits
  \<open>Math.pow(2, retryCount) * 1000\<close> ms, re-creates the pool when \<open>retryCount\<close> is 2 and
  goes round again; any other rejection is rethrown (\<open>Inl\<close>). Whatever the pool
  resolves with is returned as it is. Leaving the loop by its guard returns
  \<open>undefined\<close> (\<open>Inr None\<close>).
\<close>

definition maxRetries :: nat where
  "maxRetries = 3"

definition isConnectionError :: "js_error \<Rightarrow> bool" where
  "isConnectionError e =
     (err_code e = Some ''ECONNRESET'' \<or> err_code e = Some ''PROTOCOL_CONNECTION_LOST''
      \<or> err_code e = Some ''ETIMEDOUT'' \<or> err_code e = Some ''EPIPE'')"

text \<open>
  Lines 92-100: \<open>await this.connectionPool.end(); await this.initializeDatabase()\<close>
  inside a \<open>try\<close> whose \<open>catch\<close> only logs.
\<close>

definition recreatePool :: "world \<Rightarrow> world" where
  "recreatePool w =
     (if poolEndFails w then w\<lparr>trace := trace w @ [PoolEnd]\<rparr>
      else w\<lparr>trace := trace w @ [PoolEnd, InitializeDatabase]\<rparr>)"

text \<open>Lines 88-100, with \<open>retryCount\<close> already incremented.\<close>

definition retryBackoff :: "nat \<Rightarrow> world \<Rightarrow> world" where
  "retryBackoff retryCount w =
     (let w1 = wait (2 ^ retryCount * 1000) w
      in if retryCount = 2 then recreatePool w1 else w1)"

function executeQuery_from ::
  "nat \<Rightarrow> string \<Rightarrow> world \<Rightarrow> (js_error + query_value option) \<times> world" where
  "executeQuery_from retryCount sql w =
     (if retryCount < maxRetries then
        (case pool_execute sql w of
           (Rows rows, w1) \<Rightarrow> (Inr (Some (RowArray rows)), w1)
         | (Header, w1) \<Rightarrow> (Inr (Some ResultHeader), w1)
         | (Fails err, w1) \<Rightarrow>
             if isConnectionError err \<and> retryCount < maxRetries - 1 then
               executeQuery_from (retryCount + 1) sql (retryBackoff (retryCount + 1) w1)
             else (Inl err, w1))
      else (Inr None, w))"
  by pat_completeness auto
termination
  by (relation "measure (\<lambda>(retryCount, sql, w). maxRetries - retryCount)") auto

definition executeQuery :: "string \<Rightarrow> world \<Rightarrow> (js_error + query_value option) \<times> world" where
  "executeQuery sql w = executeQuery_from 0 sql w"

section \<open>Execution with caching and metrics\<close>

definition cacheTimeout :: int where
  "cacheTimeout = 300000"

definition maxHistorySize :: nat where
  "maxHistorySize = 1000"

text \<open>
  The object \<open>executeSqlQuery\<close> returns. A field the object literal does not set, or
  sets to \<open>undefined\<close>, is \<open>None\<close>: the cache-hit object has no \<open>rowCount\<close>, the
  failure object has neither \<open>data\<close>, \<open>fromCache\<close> nor \<open>rowCount\<close>, and the
  \<open>rowCount\<close> of a result header is \<open>undefined\<close>.
\<close>

record query_result =
  success :: bool
  data :: "query_value option"
  executionTime :: int
  fromCache :: "bool option"
  rowCount :: "nat option"
  error :: "string option"
  errorCode :: "string option"

text \<open>\<open>addToQueryHistory\<close> (lines 846-862).\<close>

definition addToQueryHistory ::
  "string \<Rightarrow> bool \<Rightarrow> int \<Rightarrow> nat option \<Rightarrow> string option \<Rightarrow> world \<Rightarrow> world" where
  "addToQueryHistory query ok execTime nrows err w =
     (let (t, w1) = now w;
          historyEntry = \<lparr>h_timestamp = t, h_success = ok, h_executionTime = execTime,
                          h_rowCount = nrows, h_error = err\<rparr>;
          pushed = queryHistory w1 @ [historyEntry]
      in w1\<lparr>queryHistory := (if length pushed > maxHistorySize then tl pushed else pushed)\<rparr>)"

text \<open>
  Lines 613-628: the cache check. \<open>Some\<close> is the early \<open>return\<close> of a cache hit; on an
  expired entry the key is deleted and execution goes on.
\<close>

definition cacheCheck ::
  "string \<Rightarrow> bool \<Rightarrow> int \<Rightarrow> world \<Rightarrow> query_result option \<times> world" where
  "cacheCheck cacheKey useCache startTime w =
     (case (if useCache then map_get (queryCache w) cacheKey else None) of
        None \<Rightarrow> (None, w)
      | Some cachedData \<Rightarrow>
          (let (t, w1) = now w in
           if t - timestamp cachedData < cacheTimeout then
             (let w2 = w1\<lparr>metrics := (metrics w1)\<lparr>cacheHits := Suc (cacheHits (metrics w1))\<rparr>\<rparr>;
                  (t', w3) = now w2
              in (Some \<lparr>success = True, data = Some (RowArray (result cachedData)),
                         executionTime = t' - startTime, fromCache = Some True,
                         rowCount = None, error = None, errorCode = None\<rparr>,
                  w3))
           else (None, w1\<lparr>queryCache := map_delete (queryCache w1) cacheKey\<rparr>)))"

text \<open>
  Lines 636-647: the result is stored when caching is on and it has between 1 and 999
  rows; when the cache then holds more than 100 entries, the first key in insertion
  order is deleted.
\<close>

definition cacheStore :: "string \<Rightarrow> bool \<Rightarrow> row list \<Rightarrow> world \<Rightarrow> world" where
  "cacheStore cacheKey useCache rows w =
     (if useCache \<and> length rows > 0 \<and> length rows < 1000 then
        (let (t, w1) = now w;
             w2 = w1\<lparr>queryCache := map_set (queryCache w1) cacheKey \<lparr>result = rows, timestamp = t\<rparr>\<rparr>
         in if length (queryCache w2) > 100 then
              (case queryCache w2 of
                 [] \<Rightarrow> w2
               | (oldestKey, oldest) # others \<Rightarrow>
                   w2\<lparr>queryCache := map_delete (queryCache w2) oldestKey\<rparr>)
            else w2)
      else w)"

text \<open>Lines 664-687: the \<open>catch\<close> block.\<close>

definition errorMessageFor :: "js_error \<Rightarrow> string" where
  "errorMessageFor e =
     (if err_code e = Some ''ER_NO_SUCH_TABLE'' then
        ''Table doesn't exist. Please check the table name. Available tables include: company, projects, contacts, teammembers, etc.''
      else if err_code e = Some ''ECONNRESET'' \<or> err_code e = Some ''ETIMEDOUT'' then
        ''Database connection timeout. The query may be too complex or the database is temporarily unavailable.''
      else if err_code e = Some ''ER_BAD_FIELD_ERROR'' then
        ''Column doesn't exist. Please check the column name in the table schema.''
      else err_message e)"

definition executionFailed :: "string \<Rightarrow> int \<Rightarrow> js_error \<Rightarrow> world \<Rightarrow> query_result \<times> world" where
  "executionFailed query startTime e w =
     (let (t, w1) = now w;
          execTime = t - startTime;
          w2 = w1\<lparr>metrics := (metrics w1)\<lparr>failedQueries := Suc (failedQueries (metrics w1))\<rparr>\<rparr>;
          w3 = addToQueryHistory query False execTime (Some 0) (Some (err_message e)) w2
      in (\<lparr>success = False, data = None, executionTime = execTime, fromCache = None,
           rowCount = None, error = Some (errorMessageFor e), errorCode = err_code e\<rparr>,
          w3))"

text \<open>Lines 633-662: after \<open>executeQuery\<close> has resolved with an array of rows.\<close>

definition executionSucceeded ::
  "string \<Rightarrow> string \<Rightarrow> bool \<Rightarrow> int \<Rightarrow> row list \<Rightarrow> world \<Rightarrow> query_result \<times> world" where
  "executionSucceeded query cacheKey useCache startTime rows w =
     (let (t, w1) = now w;
          execTime = t - startTime;
          w2 = cacheStore cacheKey useCache rows w1;
          w3 = w2\<lparr>metrics := (metrics w2)\<lparr>successfulQueries := Suc (successfulQueries (metrics w2))\<rparr>\<rparr>;
          w4 = addToQueryHistory query True execTime (Some (length rows)) None w3
      in (\<lparr>success = True, data = Some (RowArray rows), executionTime = execTime,
           fromCache = Some False, rowCount = Some (length rows), error = None,
           errorCode = None\<rparr>,
          w4))"

text \<open>
  Lines 633-662 after \<open>executeQuery\<close> has resolved with a result header:
  \<open>rows.length\<close> is \<open>undefined\<close>, so \<open>rows.length > 0\<close> is false and nothing is
  cached; the history entry and the returned object get \<open>undefined\<close> as row count.
\<close>

definition headerSucceeded :: "string \<Rightarrow> int \<Rightarrow> world \<Rightarrow> query_result \<times> world" where
  "headerSucceeded query startTime w =
     (let (t, w1) = now w;
          execTime = t - startTime;
          w2 = w1\<lparr>metrics := (metrics w1)\<lparr>successfulQueries := Suc (successfulQueries (metrics w1))\<rparr>\<rparr>;
          w3 = addToQueryHistory query True execTime (valueLength ResultHeader) None w2
      in (\<lparr>success = True, data = Some ResultHeader, executionTime = execTime,
           fromCache = Some False, rowCount = valueLength ResultHeader, error = None,
           errorCode = None\<rparr>,
          w3))"

text \<open>
  Reading \<open>rows.length\<close> of \<open>undefined\<close> throws a \<open>TypeError\<close> into the \<open>catch\<close> block:
  with caching on at line 636, with caching off at line 654, after
  \<open>successfulQueries\<close> was incremented.
\<close>

definition undefinedLengthError :: js_error where
  "undefinedLengthError =
     JsError ''TypeError'' ''Cannot read properties of undefined (reading 'length')'' None None"

definition rowsUndefined :: "string \<Rightarrow> bool \<Rightarrow> int \<Rightarrow> world \<Rightarrow> query_result \<times> world" where
  "rowsUndefined query useCache startTime w =
     (let (t, w1) = now w;
          w2 = (if useCache then w1
                else w1\<lparr>metrics := (metrics w1)\<lparr>successfulQueries := Suc (successfulQueries (metrics w1))\<rparr>\<rparr>)
      in executionFailed query startTime undefinedLengthError w2)"

text \<open>
  Lines 630-687: the statement is run through \<open>executeQuery\<close>; what it resolves with
  goes to the success path, a thrown error to the \<open>catch\<close> block.
\<close>

definition executeAndRecord ::
  "string \<Rightarrow> string \<Rightarrow> bool \<Rightarrow> int \<Rightarrow> world \<Rightarrow> query_result \<times> world" where
  "executeAndRecord query cacheKey useCache startTime w =
     (case executeQuery query w of
        (Inr (Some (RowArray rows)), w1) \<Rightarrow>
          executionSucceeded query cacheKey useCache startTime rows w1
      | (Inr (Some ResultHeader), w1) \<Rightarrow> headerSucceeded query startTime w1
      | (Inr None, w1) \<Rightarrow> rowsUndefined query useCache startTime w1
      | (Inl e, w1) \<Rightarrow> executionFailed query startTime e w1)"

text \<open>Line 610: \<open>this.metrics.totalQueries++\<close>.\<close>

definition countQuery :: "world \<Rightarrow> world" where
  "countQuery w = w\<lparr>metrics := (metrics w)\<lparr>totalQueries := Suc (totalQueries (metrics w))\<rparr>\<rparr>"

text \<open>\<open>executeSqlQuery\<close> (lines 608-688).\<close>

definition executeSqlQuery :: "string \<Rightarrow> bool \<Rightarrow> world \<Rightarrow> query_result \<times> world" where
  "executeSqlQuery query useCache w =
     (let (startTime, w1) = now w;
          w2 = countQuery w1;
          cacheKey = generateCacheKey query
      in case cacheCheck cacheKey useCache startTime w2 of
           (Some hit, w3) \<Rightarrow> (hit, w3)
         | (None, w3) \<Rightarrow> executeAndRecord query cacheKey useCache startTime w3)"

section \<open>Category selection\<close>

text \<open>\<open>getCategoryMapping\<close> (lines 185-278), in the order of the object literal.\<close>

record category_data =
  cat_tables :: "string list"
  cat_keywords :: "string list"

definition getCategoryMapping :: "(string \<times> category_data) list" where
  "getCategoryMapping =
     [
      (''Company / Organization'',
       \<lparr>cat_tables =
          [''company'', ''platformconfig'', ''user_company_relations'',
           ''system_country_currency'', ''system_role'', ''system_status'',
           ''system_type'', ''system_survey_template'', ''countries'', ''platformusers'',
           ''permissions'', ''loginhistory''],
        cat_keywords =
          [''company'', ''organization'', ''config'', ''system'', ''country'',
           ''currency'', ''platform'', ''user'']\<rparr>),
      (''Users / Teams'',
       \<lparr>cat_tables =
          [''contacts'', ''contacts_backup_20250211'', ''contactsalary'', ''teammembers'',
           ''teammembers_bkup20241029'', ''teammembers_stage'', ''platformusers'',
           ''permissions'', ''loginhistory'', ''recentlyviewed'', ''roles'',
           ''rolefeatures''],
        cat_keywords =
          [''user'', ''contact'', ''team'', ''member'', ''role'', ''permission'',
           ''login'', ''salary'', ''employee'']\<rparr>),
      (''Projects'',
       \<lparr>cat_tables =
          [''projects'', ''projectmilestones'', ''portfolio_projects_rel'', ''portfolios'',
           ''projectfinancialdaily'', ''s_projects'', ''temp_projectlist'',
           ''master_case_project'', ''master_case_project_backup_20250219''],
        cat_keywords =
          [''project'', ''milestone'', ''portfolio'', ''financial'', ''budget'', ''case'']\<rparr>),
      (''Timesheets'',
       \<lparr>cat_tables =
          [''timesheetdata'', ''timesheets'', ''timesheetsraw'', ''timesheettasks'',
           ''timesheettaskscache'', ''timesheetuploadlog'', ''x_timesheet'',
           ''s_teammembers''],
        cat_keywords =
          [''timesheet'', ''time'', ''hours'', ''task'', ''upload'', ''raw'', ''effort'']\<rparr>),
      (''Reports / Summaries'',
       \<lparr>cat_tables =
          [''consolidated_summary'', ''mod_consolidated_summary'', ''reconciliations'',
           ''master_sheets'', ''master_sheets_data'', ''activitylogs'', ''alerts'',
           ''notes'', ''naggingdetails'', ''master_project_ai_summary'',
           ''master_project_ai_summary_sections'', ''master_project_ai_summary_source'',
           ''master_project_summarizer_logs'',
           ''master_project_summarizer_logs_bkup20241008''],
        cat_keywords =
          [''summary'', ''report'', ''consolidated'', ''reconciliation'', ''alert'',
           ''note'', ''activity'', ''sheet'']\<rparr>),
      (''AI / Interactions'',
       \<lparr>cat_tables =
          [''interactions'', ''interactions_artifacts'', ''interactions_sent'',
           ''master_ai_configurations'', ''master_ai_llm_logs'', ''master_ai_request'',
           ''master_ai_knowledge_base'', ''master_project_ai_assessment'',
           ''master_project_ai_interaction'', ''master_interactions'',
           ''master_interactions_qa''],
        cat_keywords =
          [''ai'', ''interaction'', ''artifact'', ''llm'', ''assessment'',
           ''configuration'', ''knowledge'']\<rparr>),
      (''Cases'',
       \<lparr>cat_tables =
          [''case'', ''master_case'', ''master_case_project'',
           ''master_case_project_backup_20250219''],
        cat_keywords =
          [''case'', ''legal'', ''issue'', ''claim'']\<rparr>),
      (''Documents'',
       \<lparr>cat_tables =
          [''documents'', ''master_document_type_mapping''],
        cat_keywords =
          [''document'', ''file'', ''upload'', ''attachment'', ''doc'']\<rparr>),
      (''Surveys'',
       \<lparr>cat_tables =
          [''master_survey'', ''master_survey_answer'', ''master_survey_answer_batch'',
           ''master_survey_assignment'', ''master_survey_control'',
           ''system_survey_question'', ''get_survey_responses'',
           ''batchupload_survey_responses'', ''vw_survey'',
           ''master_survey_backup_20250219'', ''master_survey_bkup20241008'',
           ''master_survey_bkup20250129'', ''master_survey_answer_bkup20241008'',
           ''master_survey_answer_bkup20250129'',
           ''master_survey_control_backup_20250219'', ''master_survey_control_bkup20241008''],
        cat_keywords =
          [''survey'', ''question'', ''answer'', ''response'', ''assignment'', ''batch'']\<rparr>),
      (''Financial / Dynamics'',
       \<lparr>cat_tables =
          [''projectfinancialdaily'', ''contactsalary'', ''trd365_account_fiscal'',
           ''trd365_accounts'', ''trd365_country'', ''trd365_project_fiscal'',
           ''trd365_project_fiscal_resources'', ''trd365_projects'', ''trd365_resources''],
        cat_keywords =
          [''financial'', ''fiscal'', ''account'', ''salary'', ''cost'', ''revenue'',
           ''dynamics'', ''365'']\<rparr>),
      (''Mappings / Configurations'',
       \<lparr>cat_tables =
          [''mapping'', ''master_company_mail_configuration'', ''master_company_mapper'',
           ''master_mapper'', ''master_mapper_attributes'', ''workflow'',
           ''master_intent'', ''master_intent_framework'',
           ''master_intent_framework_company''],
        cat_keywords =
          [''mapping'', ''mapper'', ''config'', ''workflow'', ''intent'', ''framework'',
           ''mail'']\<rparr>)
     ]"

text \<open>
  Lines 290-297: the score of one category, and lines 287-302: the loop over
  \<open>Object.entries(categories)\<close> keeping the first category with the strictly greatest
  score so far. \<open>bestMatch\<close> starts as \<open>{ category: null, score: 0 }\<close>.
\<close>

definition keywordScore :: "string \<Rightarrow> string list \<Rightarrow> nat" where
  "keywordScore questionLower kws =
     foldl (\<lambda>score keyword.
              if js_includes questionLower keyword then score + length keyword else score)
       0 kws"

definition bestMatch :: "string \<Rightarrow> (string \<times> category_data) list \<Rightarrow> string option \<times> nat" where
  "bestMatch questionLower categories =
     foldl (\<lambda>best (categoryName, categoryData).
              let score = keywordScore questionLower (cat_keywords categoryData)
              in if score > snd best then (Some categoryName, score) else best)
       (None, 0) categories"

text \<open>
  \<open>categories[categoryName]\<close> (line 319) reads a property of a plain object: an own
  property if there is one, otherwise the property of that name inherited from
  \<open>Object.prototype\<close>. Each inherited member is a function or an object, so it is truthy,
  and it has no \<open>tables\<close> property.
\<close>

datatype property_value = OwnCategory category_data | Inherited

definition objectPrototypeProperties :: "string list" where
  "objectPrototypeProperties =
     [''constructor'', ''__defineGetter__'', ''__defineSetter__'', ''hasOwnProperty'',
      ''__lookupGetter__'', ''__lookupSetter__'', ''isPrototypeOf'', ''propertyIsEnumerable'',
      ''toString'', ''valueOf'', ''__proto__'', ''toLocaleString'']"

definition getProperty :: "(string \<times> category_data) list \<Rightarrow> string \<Rightarrow> property_value option" where
  "getProperty obj name =
     (case map_of obj name of
        Some d \<Rightarrow> Some (OwnCategory d)
      | None \<Rightarrow> if name \<in> set objectPrototypeProperties then Some Inherited else None)"

text \<open>
  The object \<open>selectCategory\<close> returns; \<open>cr_tables = None\<close> is a \<open>tables\<close> property
  whose value is \<open>undefined\<close>.
\<close>

record category_result =
  cr_category :: string
  cr_tables :: "string list option"

text \<open>
  \<open>selectCategory\<close> (lines 283-330). The prompt text is not part of the model: the
  environment fixes the model's reply per call.
\<close>

definition selectCategory :: "builtins \<Rightarrow> string \<Rightarrow> world \<Rightarrow> category_result \<times> world" where
  "selectCategory js question w =
     (let categories = getCategoryMapping;
          questionLower = toLowerCase js question;
          best = bestMatch questionLower categories;
          final = (case fst best of
                     Some name \<Rightarrow>
                       \<lparr>cr_category = name,
                        cr_tables = map_option cat_tables (map_of categories name)\<rparr>
                   | None \<Rightarrow>
                       \<lparr>cr_category = ''General'', cr_tables = Some (tableSchemas w)\<rparr>)
      in if snd best = 0 then
           (case generateContent w of
              (LlmText text, w1) \<Rightarrow>
                (let categoryName = trim js text in
                 case getProperty categories categoryName of
                   Some (OwnCategory d) \<Rightarrow>
                     (\<lparr>cr_category = categoryName, cr_tables = Some (cat_tables d)\<rparr>, w1)
                 | Some Inherited \<Rightarrow>
                     (\<lparr>cr_category = categoryName, cr_tables = None\<rparr>, w1)
                 | None \<Rightarrow> (final, w1))
            | (LlmFails err, w1) \<Rightarrow> (final, w1))
         else (final, w))"

section \<open>Query synthesis\<close>

text \<open>\<open>generateFallbackQuery\<close> (lines 552-577). \<open>relevantTables[0] || 'company'\<close> is
  the first element unless the list is empty or the element is the empty string.\<close>

definition firstTableOrCompany :: "string list \<Rightarrow> string" where
  "firstTableOrCompany relevantTables =
     (case relevantTables of
        [] \<Rightarrow> ''company''
      | t # ts \<Rightarrow> if t = [] then ''company'' else t)"

definition generateFallbackQuery :: "builtins \<Rightarrow> string \<Rightarrow> string list \<Rightarrow> string" where
  \<open>generateFallbackQuery js question relevantTables =
     (let questionLower = toLowerCase js question;
          table = firstTableOrCompany relevantTables
      in if js_includes questionLower ''summary''
            \<and> ''master_project_ai_summary'' \<in> set relevantTables then
           ''SELECT projectId, summary FROM master_project_ai_summary WHERE status = "active" LIMIT 10''
         else if js_includes questionLower ''how many'' \<or> js_includes questionLower ''count'' then
           ''SELECT COUNT(*) as count FROM '' @ table
         else if (js_includes questionLower ''list'' \<or> js_includes questionLower ''show'')
                 \<and> table = ''company'' then
           ''SELECT companyId, companyName, status FROM company LIMIT 20''
         else if (js_includes questionLower ''list'' \<or> js_includes questionLower ''show'')
                 \<and> table = ''project'' then
           ''SELECT projectId, projectName, projectStatus FROM project LIMIT 20''
         else ''SELECT * FROM '' @ table @ '' LIMIT 5'')\<close>

text \<open>
  Evaluating an identifier looks it up in the enclosing scopes; a name bound in none of
  them throws a \<open>ReferenceError\<close>. A scope is the list of its bindings.
\<close>

datatype js_value =
  StringValue string | ListValue "string list" | ErrorValue js_error | ObjectValue

definition resolveIdentifier :: "(string \<times> js_value) list \<Rightarrow> string \<Rightarrow> js_error + js_value" where
  "resolveIdentifier scope name =
     (case map_of scope name of
        Some v \<Rightarrow> Inr v
      | None \<Rightarrow> Inl (JsError ''ReferenceError'' (name @ '' is not defined'') None None))"

text \<open>
  The bindings visible at line 542, innermost first: the \<open>catch\<close> parameter, the
  function's \<open>const prompt\<close> and its three parameters, and the module's top-level
  \<open>const\<close> and \<open>class\<close> declarations (lines 17, 18 and 21). The prompt text is not part of
  the model.
\<close>

definition catchScope :: "string \<Rightarrow> string list \<Rightarrow> string \<Rightarrow> js_error \<Rightarrow> (string \<times> js_value) list" where
  "catchScope question tableNames schemaInfo err =
     [(''error'', ErrorValue err),
      (''prompt'', ObjectValue),
      (''question'', StringValue question),
      (''tableNames'', ListValue tableNames),
      (''schemaInfo'', StringValue schemaInfo),
      (''mysql'', ObjectValue),
      (''GoogleGenerativeAI'', ObjectValue),
      (''AdvancedSqlAgent'', ObjectValue)]"

text \<open>
  \<open>generateSqlQuery\<close> (lines 479-547). The clean-up of the model's text in the \<open>try\<close>
  block (lines 514-533: trimming, stripping code fences, rewriting table aliases) is the
  parameter \<open>cleanQuery\<close>. In the \<open>catch\<close> block the argument \<open>relevantTables\<close> of the
  call at line 542 is evaluated before the call; a value that is not an array has no
  usable \<open>includes\<close>/index for the fallback and is reported as a \<open>TypeError\<close>.
\<close>

definition generateSqlQuery ::
  "builtins \<Rightarrow> (string \<Rightarrow> string) \<Rightarrow> string \<Rightarrow> string list \<Rightarrow> string \<Rightarrow> world
     \<Rightarrow> (js_error + string) \<times> world" where
  "generateSqlQuery js cleanQuery question tableNames schemaInfo w =
     (case generateContent w of
        (LlmText text, w1) \<Rightarrow> (Inr (cleanQuery text), w1)
      | (LlmFails err, w1) \<Rightarrow>
          if err_status err = Some 429 then
            (case resolveIdentifier (catchScope question tableNames schemaInfo err)
                    ''relevantTables'' of
               Inl referenceError \<Rightarrow> (Inl referenceError, w1)
             | Inr (ListValue relevantTables) \<Rightarrow>
                 (Inr (generateFallbackQuery js question relevantTables), w1)
             | Inr other \<Rightarrow>
                 (Inl (JsError ''TypeError'' ''relevantTables.includes is not a function'' None None),
                  w1))
          else (Inl (JsError ''Error'' ''Failed to generate SQL query'' None None), w1))"

section \<open>Response composition and the question pipeline\<close>

text \<open>Decimal text of a number, as a template literal prints an integer.\<close>

definition digit_char :: "nat \<Rightarrow> char" where
  "digit_char n = ''0123456789'' ! n"

function string_of_nat :: "nat \<Rightarrow> string" where
  "string_of_nat n =
     (if n < 10 then [digit_char n] else string_of_nat (n div 10) @ [digit_char (n mod 10)])"
  by pat_completeness auto
termination
  by (relation "measure (\<lambda>n. n)") auto

definition string_of_int :: "int \<Rightarrow> string" where
  "string_of_int i = (if i < 0 then ''-'' @ string_of_nat (nat (- i)) else string_of_nat (nat i))"

text \<open>
  \<open>generateResponse\<close> (lines 693-738). A failed execution and an empty or missing
  result are answered with fixed text and no model call. Otherwise lines 703-704 take
  \<open>queryResult.data.slice(0, 50)\<close> and serialise it with \<open>JSON.stringify\<close>, outside
  the \<open>try\<close> block that starts at line 722: a result header has no \<open>slice\<close>, so the call
  throws a \<open>TypeError\<close>, and an error of \<open>JSON.stringify\<close> is thrown on as well
  (\<open>Inl\<close>). Then the model is asked once (its prompt is not part of the model) and a
  failure of that call is answered with fixed text.
\<close>

definition noDataResponse :: "string \<Rightarrow> string" where
  \<open>noDataResponse question =
     ''I couldn't find any data matching your question: "'' @ question
       @ ''". The query executed successfully but returned no results.''\<close>

definition executionErrorResponse :: "query_result \<Rightarrow> string" where
  \<open>executionErrorResponse queryResult =
     ''I encountered an error while executing your query: ''
       @ (case error queryResult of Some m \<Rightarrow> m | None \<Rightarrow> ''undefined'')
       @ ''. Please try rephrasing your question or contact support if the issue persists.''\<close>

definition generateResponse ::
  "builtins \<Rightarrow> string \<Rightarrow> string \<Rightarrow> query_result \<Rightarrow> world \<Rightarrow> (js_error + string) \<times> world" where
  \<open>generateResponse js question query queryResult w =
     (if \<not> success queryResult then (Inr (executionErrorResponse queryResult), w)
      else
        (case data queryResult of
           None \<Rightarrow> (Inr (noDataResponse question), w)
         | Some ResultHeader \<Rightarrow>
             (Inl (JsError ''TypeError'' ''queryResult.data.slice is not a function'' None None), w)
         | Some (RowArray rows) \<Rightarrow>
             if length rows = 0 then (Inr (noDataResponse question), w)
             else
               (case stringify js (take 50 rows) of
                  Inl err \<Rightarrow> (Inl err, w)
                | Inr dataString \<Rightarrow>
                    (case generateContent w of
                       (LlmText text, w1) \<Rightarrow>
                         (let answer = trim js text
                          in (Inr (if executionTime queryResult > 1000 then
                                     answer @ [CHR 0x0A, CHR 0x0A] @ ''*Query executed in ''
                                       @ string_of_int (executionTime queryResult) @ ''ms*''
                                   else answer),
                              w1))
                     | (LlmFails err, w1) \<Rightarrow>
                         (Inr (''I found '' @ string_of_nat (length rows)
                                 @ '' records matching your question, but I'm having trouble interpreting the results. Please contact support for assistance.''),
                          w1)))))\<close>

text \<open>
  What steps 1 to 4 of \<open>processQuestion\<close> hand to step 5: the category, the selected
  tables and the generated SQL text.
\<close>

record synthesis =
  s_category :: string
  s_tables :: "string list"
  s_sqlQuery :: string

text \<open>
  The object \<open>processQuestion\<close> returns. The success object sets every field but
  \<open>error\<close>; the failure object sets only \<open>success\<close>, \<open>question\<close>, \<open>error\<close> and \<open>response\<close>.
\<close>

record question_result =
  pq_success :: bool
  pq_question :: string
  pq_category :: "string option"
  pq_tables :: "string list option"
  pq_query :: "string option"
  pq_executionTime :: "int option"
  pq_rowCount :: "nat option"
  pq_fromCache :: "bool option"
  pq_error :: "string option"
  pq_response :: string

definition processingFailed :: "string \<Rightarrow> js_error \<Rightarrow> question_result" where
  \<open>processingFailed question err =
     \<lparr>pq_success = False, pq_question = question, pq_category = None, pq_tables = None,
      pq_query = None, pq_executionTime = None, pq_rowCount = None, pq_fromCache = None,
      pq_error = Some (err_message err),
      pq_response = ''I'm sorry, I encountered an error while processing your question: "''
        @ question
        @ ''". Please try rephrasing your question or contact support if the issue persists.''\<rparr>\<close>

text \<open>
  \<open>processQuestion\<close> (lines 743-792). Steps 1 to 4 (\<open>selectCategory\<close>, \<open>selectTables\<close>,
  \<open>getSchemaInfo\<close>, \<open>generateSqlQuery\<close>) are the parameter \<open>steps1to4\<close>: a computation
  on the world that either throws or yields the category, the tables and the SQL text.
  Steps 5 to 7 and the returned objects are modelled in full: \<open>rowCount\<close> is
  \<open>queryResult.rowCount || 0\<close> and \<open>fromCache\<close> is \<open>queryResult.fromCache || false\<close>.
  An error thrown by the guard or by \<open>generateResponse\<close> is caught at line 783 like one
  of steps 1 to 4.
\<close>

definition processQuestion ::
  "builtins \<Rightarrow> (world \<Rightarrow> (js_error + synthesis) \<times> world) \<Rightarrow> string \<Rightarrow> world
     \<Rightarrow> question_result \<times> world" where
  "processQuestion js steps1to4 question w =
     (case steps1to4 w of
        (Inl err, w1) \<Rightarrow> (processingFailed question err, w1)
      | (Inr s, w1) \<Rightarrow>
          (case validateAndOptimizeQuery js (s_sqlQuery s) of
             Inl err \<Rightarrow> (processingFailed question err, w1)
           | Inr optimizedQuery \<Rightarrow>
               (let (queryResult, w2) = executeSqlQuery optimizedQuery True w1 in
                case generateResponse js question optimizedQuery queryResult w2 of
                  (Inl err, w3) \<Rightarrow> (processingFailed question err, w3)
                | (Inr response, w3) \<Rightarrow>
                    (\<lparr>pq_success = True, pq_question = question,
                      pq_category = Some (s_category s), pq_tables = Some (s_tables s),
                      pq_query = Some optimizedQuery,
                      pq_executionTime = Some (executionTime queryResult),
                      pq_rowCount = Some (case rowCount queryResult of Some n \<Rightarrow> n | None \<Rightarrow> 0),
                      pq_fromCache =
                        Some (case fromCache queryResult of Some b \<Rightarrow> b | None \<Rightarrow> False),
                      pq_error = None, pq_response = response\<rparr>,
                     w3))))"

text \<open>
  Steps 1 to 4 as \<open>processQuestion\<close> chains them (lines 747-760), with
  \<open>selectCategory\<close> and \<open>generateSqlQuery\<close> as modelled above. \<open>selectTables\<close>
  (which reads the loaded schemas and throws on an undefined table list) and
  \<open>getSchemaInfo\<close> are parameters.
\<close>

definition pipelineSteps ::
  "builtins \<Rightarrow> (string \<Rightarrow> string list option \<Rightarrow> world \<Rightarrow> js_error + string list)
     \<Rightarrow> (string list \<Rightarrow> world \<Rightarrow> string) \<Rightarrow> (string \<Rightarrow> string) \<Rightarrow> string
     \<Rightarrow> world \<Rightarrow> (js_error + synthesis) \<times> world" where
  "pipelineSteps js selectTables getSchemaInfo cleanQuery question w =
     (let (categoryResult, w1) = selectCategory js question w in
      case selectTables question (cr_tables categoryResult) w1 of
        Inl err \<Rightarrow> (Inl err, w1)
      | Inr selectedTables \<Rightarrow>
          (case generateSqlQuery js cleanQuery question selectedTables
                  (getSchemaInfo selectedTables w1) w1 of
             (Inl err, w2) \<Rightarrow> (Inl err, w2)
           | (Inr sqlQuery, w2) \<Rightarrow>
               (Inr \<lparr>s_category = cr_category categoryResult, s_tables = selectedTables,
                     s_sqlQuery = sqlQuery\<rparr>,
                w2)))"

text \<open>
  The handler of \<open>POST /query\<close> (sql-agent.routes.js, lines 73-137) for a string
  \<open>question\<close> and an agent that \<open>getSqlAgentInstance\<close> has already built (the world
  \<open>w\<close>); \<open>limited\<close> is the value of \<open>!req.rateLimitBypass && isRateLimited(userIP)\<close>.
  The empty string is falsy, so \<open>!question\<close> is \<open>question = []\<close>. The response carries
  the status code and, of the JSON body, \<open>success\<close>, \<open>data.response\<close>, \<open>data.rowCount\<close>,
  \<open>data.fromCache\<close> and \<open>error\<close>.
\<close>

record http_response =
  statusCode :: nat
  body_success :: bool
  body_response :: "string option"
  body_rowCount :: "nat option"
  body_fromCache :: "bool option"
  body_error :: "string option"

definition queryRoute ::
  "builtins \<Rightarrow> (world \<Rightarrow> (js_error + synthesis) \<times> world) \<Rightarrow> string \<Rightarrow> bool \<Rightarrow> world
     \<Rightarrow> http_response \<times> world" where
  "queryRoute js steps1to4 question limited w =
     (if question = [] \<or> length (trim js question) = 0 then
        (\<lparr>statusCode = 400, body_success = False, body_response = None, body_rowCount = None,
          body_fromCache = None, body_error = None\<rparr>, w)
      else if limited then
        (\<lparr>statusCode = 429, body_success = False, body_response = None, body_rowCount = None,
          body_fromCache = None, body_error = None\<rparr>, w)
      else
        (let (res, w1) = processQuestion js steps1to4 (trim js question) w
         in (\<lparr>statusCode = (if pq_success res then 200 else 400),
              body_success = pq_success res,
              body_response = Some (pq_response res),
              body_rowCount = pq_rowCount res,
              body_fromCache = pq_fromCache res,
              body_error =
                (case pq_error res of
                   Some m \<Rightarrow> if \<not> pq_success res \<and> m \<noteq> [] then Some m else None
                 | None \<Rightarrow> None)\<rparr>,
             w1)))"

section \<open>A freshly constructed agent\<close>

text \<open>
  The constructor (lines 22-65) starts with an empty cache, an empty history and zeroed
  counters. The loaded table names and the environment are given.
\<close>

definition newAgent ::
  "string list \<Rightarrow> (nat \<Rightarrow> int) \<Rightarrow> (nat \<Rightarrow> string \<Rightarrow> db_outcome) \<Rightarrow> bool \<Rightarrow> (nat \<Rightarrow> llm_outcome) \<Rightarrow> world" where
  "newAgent schemas clk db endFails model =
     \<lparr>queryCache = [], queryHistory = [],
      metrics = \<lparr>totalQueries = 0, successfulQueries = 0, failedQueries = 0, cacheHits = 0\<rparr>,
      tableSchemas = schemas, clock = clk, clockReads = 0, pool = db, executeCalls = 0,
      poolEndFails = endFails, llm = model, llmCalls = 0, trace = []\<rparr>"

section \<open>Notions used to state the properties\<close>

text \<open>
  \<open>same_agent w w'\<close>: \<open>w'\<close> differs from \<open>w\<close> at most in the number of statements sent
  to the pool and in the trace. \<open>serialises js rows\<close>: \<open>generateResponse\<close> gets past
  line 704 on these rows, because there are none or because \<open>JSON.stringify\<close> returns
  for the first 50 of them. \<open>cacheWellFormed\<close>: at most 100 entries, no key twice.
  \<open>executeSqlQueries\<close> runs a sequence of \<open>executeSqlQuery\<close> calls, each with its
  \<open>useCache\<close> flag, one after the other.
\<close>

definition same_agent :: "world \<Rightarrow> world \<Rightarrow> bool" where
  "same_agent w w' =
     (queryCache w' = queryCache w \<and> metrics w' = metrics w
      \<and> queryHistory w' = queryHistory w \<and> tableSchemas w' = tableSchemas w
      \<and> clock w' = clock w \<and> clockReads w' = clockReads w \<and> pool w' = pool w
      \<and> poolEndFails w' = poolEndFails w \<and> llm w' = llm w \<and> llmCalls w' = llmCalls w)"

definition serialises :: "builtins \<Rightarrow> row list \<Rightarrow> bool" where
  "serialises js rows =
     (rows = [] \<or> (case stringify js (take 50 rows) of Inr dataString \<Rightarrow> True | Inl err \<Rightarrow> False))"

definition cacheWellFormed :: "(string \<times> cache_entry) list \<Rightarrow> bool" where
  "cacheWellFormed c = (length c \<le> 100 \<and> distinct (map fst c))"

fun executeSqlQueries :: "(string \<times> bool) list \<Rightarrow> world \<Rightarrow> world" where
  "executeSqlQueries [] w = w"
| "executeSqlQueries ((query, useCache) # calls) w =
     executeSqlQueries calls (snd (executeSqlQuery query useCache w))"

section \<open>Concrete environments\<close>

text \<open>
  Environments for running the agent on concrete inputs: a pool whose first two
  attempts fail with a connection reset; a store that answers three statements by their
  text and knows no other table; a clock that advances one second per reading and one
  that advances 400 seconds per reading; a model that always answers, and one that is
  always rate-limited.
\<close>

definition connectionReset :: js_error where
  "connectionReset = JsError ''Error'' ''read ECONNRESET'' (Some ''ECONNRESET'') None"

definition resetsTwiceThenRows :: "nat \<Rightarrow> string \<Rightarrow> db_outcome" where
  "resetsTwiceThenRows n sql = (if n < 2 then Fails connectionReset else Rows [''1''])"

definition companyStore :: "nat \<Rightarrow> string \<Rightarrow> db_outcome" where
  "companyStore n sql =
     (if sql = ''SELECT companyName FROM company WHERE companyId = 1'' then Rows [''Acme'']
      else if sql = ''SELECT companyName FROM company WHERE companyId = 2'' then Rows [''Globex'']
      else if sql = ''SELECT companyName FROM company LIMIT 50'' then Rows [''Acme'', ''Globex'']
      else Fails (JsError ''Error'' ''Table 'certaintiMaster.compny' doesn't exist''
                    (Some ''ER_NO_SUCH_TABLE'') None))"

definition tickingClock :: "nat \<Rightarrow> int" where
  "tickingClock n = 1000 * int n"

definition slowClock :: "nat \<Rightarrow> int" where
  "slowClock n = 400000 * int n"

definition answeringModel :: "nat \<Rightarrow> llm_outcome" where
  "answeringModel n = LlmText ''There is one company, Acme.''"

definition rateLimitedModel :: "nat \<Rightarrow> llm_outcome" where
  "rateLimitedModel n = LlmFails (JsError ''Error'' ''429 Too Many Requests'' None (Some 429))"

definition companyQuery1 :: string where
  "companyQuery1 = ''SELECT companyName FROM company WHERE companyId = 1''"

definition companyQuery2 :: string where
  "companyQuery2 = ''SELECT companyName FROM company WHERE companyId = 2''"

text \<open>
  A freshly constructed agent, and the same agent after one fetch of the first
  statement with caching on; both again with the slow clock.
\<close>

definition freshAgent :: world where
  "freshAgent = newAgent [''company''] tickingClock companyStore False answeringModel"

definition agentAfterFetch :: world where
  "agentAfterFetch = snd (executeSqlQuery companyQuery1 True freshAgent)"

definition slowAgent :: world where
  "slowAgent = newAgent [''company''] slowClock companyStore False answeringModel"

definition slowAgentAfterFetch :: world where
  "slowAgentAfterFetch = snd (executeSqlQuery companyQuery1 True slowAgent)"

text \<open>
  A cache holding 100 entries, oldest first; the n-th key is n+1 letters \<open>k\<close>. An agent
  holding that cache.
\<close>

definition fullCache :: "(string \<times> cache_entry) list" where
  "fullCache =
     map (\<lambda>n. (replicate (Suc n) (CHR ''k''), \<lparr>result = [''row''], timestamp = 0\<rparr>)) [0..<100]"

definition fullCacheAgent :: world where
  "fullCacheAgent = freshAgent\<lparr>queryCache := fullCache\<rparr>"

text \<open>
  Steps 1 to 4 of the pipeline yielding a given SQL text for the company category, and
  the agent after one fetch of the company list with caching on.
\<close>

definition companyListQuery :: string where
  "companyListQuery = ''SELECT companyName FROM company LIMIT 50''"

definition misspelledQuery :: string where
  "misspelledQuery = ''SELECT companyName FROM compny LIMIT 50''"

definition synthesised :: "string \<Rightarrow> world \<Rightarrow> (js_error + synthesis) \<times> world" where
  "synthesised sql w =
     (Inr \<lparr>s_category = ''Company / Organization'', s_tables = [''company''], s_sqlQuery = sql\<rparr>,
      w)"


text \<open>
  A store that answers its first call and rejects every later one with an error that
  is not a connection error; an agent on that store with the slow clock, fresh and
  after one fetch with caching on.
\<close>

definition outageStore :: "nat \<Rightarrow> string \<Rightarrow> db_outcome" where
  "outageStore n sql =
     (if n = 0 then Rows [''Acme'']
      else Fails (JsError ''Error'' ''Access denied for user'' (Some ''ER_ACCESS_DENIED_ERROR'') None))"

definition outageAgent :: world where
  "outageAgent = newAgent [''company''] slowClock outageStore False answeringModel"

definition outageAgentAfterFetch :: world where
  "outageAgentAfterFetch = snd (executeSqlQuery companyQuery1 True outageAgent)"

text \<open>
  A store that resolves a \<open>SET\<close> statement with a result header, as the driver does
  for a statement that returns no rows, and answers like the company store otherwise; a
  fresh agent on that store.
\<close>

definition setStatement :: string where
  "setStatement = ''SET @total = 0''"

definition headerStore :: "nat \<Rightarrow> string \<Rightarrow> db_outcome" where
  "headerStore n sql = (if sql = setStatement then Header else companyStore n sql)"

definition headerAgent :: world where
  "headerAgent = newAgent [''company''] tickingClock headerStore False answeringModel"

section \<open>Properties of strings\<close>

lemma js_includes_sublist: "js_includes s t \<longleftrightarrow> sublist t s"
  by (induction s) (auto simp: sublist_Cons_right)

lemma js_includes_iff: "js_includes s t \<longleftrightarrow> (\<exists>p q. s = p @ t @ q)"
  by (simp add: js_includes_sublist sublist_def)

section \<open>Properties of the Query Guard\<close>

lemma guard_find_None:
  "find (\<lambda>keyword. js_includes u keyword) dangerousKeywords = None
     \<longleftrightarrow> \<not> (\<exists>k \<in> set [''DROP'', ''DELETE'', ''TRUNCATE'', ''ALTER'', ''CREATE'', ''INSERT'', ''UPDATE''].
              js_includes u k)"
  unfolding find_None_iff dangerousKeywords_def by blast

lemma guard_blocked:
  assumes "\<exists>k \<in> set [''DROP'', ''DELETE'', ''TRUNCATE'', ''ALTER'', ''CREATE'', ''INSERT'', ''UPDATE''].
             js_includes (toUpperCase js query) k"
  shows "\<exists>k \<in> set [''DROP'', ''DELETE'', ''TRUNCATE'', ''ALTER'', ''CREATE'', ''INSERT'', ''UPDATE''].
           js_includes (toUpperCase js query) k \<and>
           validateAndOptimizeQuery js query =
             Inl (JsError ''Error'' (''Query contains prohibited keyword: '' @ k) None None)"
proof -
  from assms have "find (\<lambda>keyword. js_includes (toUpperCase js query) keyword) dangerousKeywords \<noteq> None"
    by (simp only: guard_find_None) blast
  then obtain k where k: "find (\<lambda>keyword. js_includes (toUpperCase js query) keyword) dangerousKeywords = Some k"
    by blast
  then have "k \<in> set dangerousKeywords" "js_includes (toUpperCase js query) k"
    by (auto simp: find_Some_iff)
  moreover from k have "validateAndOptimizeQuery js query =
      Inl (JsError ''Error'' (''Query contains prohibited keyword: '' @ k) None None)"
    by (simp add: validateAndOptimizeQuery_def)
  ultimately show ?thesis
    unfolding dangerousKeywords_def by blast
qed

lemma guard_passed:
  assumes "\<not> (\<exists>k \<in> set [''DROP'', ''DELETE'', ''TRUNCATE'', ''ALTER'', ''CREATE'', ''INSERT'', ''UPDATE''].
             js_includes (toUpperCase js query) k)"
  shows "validateAndOptimizeQuery js query =
           Inr (if \<not> js_includes (toUpperCase js query) ''LIMIT'' \<and> js_includes (toUpperCase js query) ''SELECT''
                     \<and> \<not> js_includes (toUpperCase js query) ''COUNT(''
                     \<and> \<not> js_includes (toUpperCase js query) ''SUM(''
                     \<and> \<not> js_includes (toUpperCase js query) ''AVG(''
                     \<and> \<not> js_includes (toUpperCase js query) ''GROUP BY''
                then query @ '' LIMIT 100'' else query)"
proof -
  from assms have "find (\<lambda>keyword. js_includes (toUpperCase js query) keyword) dangerousKeywords = None"
    by (simp only: guard_find_None) blast
  then show ?thesis
    by (simp add: validateAndOptimizeQuery_def Let_def)
qed

text \<open>
  C1. For every statement and whatever the engine's \<open>toUpperCase\<close> yields for it: the
  guard throws whenever the uppercased statement contains one of DROP, DELETE, TRUNCATE,
  ALTER, CREATE, INSERT, UPDATE as a substring (the error names a keyword that occurs),
  and it returns a statement unchanged when the uppercased text contains none of them
  and contains both SELECT and LIMIT.
\<close>

theorem guard_rejects_blocklist_and_keeps_select_limit:
  "((\<exists>k \<in> set [''DROP'', ''DELETE'', ''TRUNCATE'', ''ALTER'', ''CREATE'', ''INSERT'', ''UPDATE''].
        js_includes (toUpperCase js query) k)
      \<longrightarrow> (\<exists>k \<in> set [''DROP'', ''DELETE'', ''TRUNCATE'', ''ALTER'', ''CREATE'', ''INSERT'', ''UPDATE''].
             js_includes (toUpperCase js query) k \<and>
             validateAndOptimizeQuery js query =
               Inl (JsError ''Error'' (''Query contains prohibited keyword: '' @ k) None None)))
   \<and> (\<not> (\<exists>k \<in> set [''DROP'', ''DELETE'', ''TRUNCATE'', ''ALTER'', ''CREATE'', ''INSERT'', ''UPDATE''].
            js_includes (toUpperCase js query) k)
        \<and> js_includes (toUpperCase js query) ''SELECT''
        \<and> js_includes (toUpperCase js query) ''LIMIT''
      \<longrightarrow> validateAndOptimizeQuery js query = Inr query)"
proof (intro conjI impI)
  assume "\<exists>k \<in> set [''DROP'', ''DELETE'', ''TRUNCATE'', ''ALTER'', ''CREATE'', ''INSERT'', ''UPDATE''].
            js_includes (toUpperCase js query) k"
  then show "\<exists>k \<in> set [''DROP'', ''DELETE'', ''TRUNCATE'', ''ALTER'', ''CREATE'', ''INSERT'', ''UPDATE''].
             js_includes (toUpperCase js query) k \<and>
             validateAndOptimizeQuery js query =
               Inl (JsError ''Error'' (''Query contains prohibited keyword: '' @ k) None None)"
    by (rule guard_blocked)
next
  assume a: "\<not> (\<exists>k \<in> set [''DROP'', ''DELETE'', ''TRUNCATE'', ''ALTER'', ''CREATE'', ''INSERT'', ''UPDATE''].
            js_includes (toUpperCase js query) k)
        \<and> js_includes (toUpperCase js query) ''SELECT''
        \<and> js_includes (toUpperCase js query) ''LIMIT''"
  then show "validateAndOptimizeQuery js query = Inr query"
    using guard_passed [of js query] by simp
qed

theorem guard_rejects_blocklist_and_keeps_select_limit_witness:
  "(\<exists>k \<in> set [''DROP'', ''DELETE'', ''TRUNCATE'', ''ALTER'', ''CREATE'', ''INSERT'', ''UPDATE''].
      js_includes (toUpperCase asciiBuiltins ''drop table company'') k)
   \<and> (\<exists>k \<in> set [''DROP'', ''DELETE'', ''TRUNCATE'', ''ALTER'', ''CREATE'', ''INSERT'', ''UPDATE''].
        js_includes (toUpperCase asciiBuiltins ''drop table company'') k \<and>
        validateAndOptimizeQuery asciiBuiltins ''drop table company'' =
          Inl (JsError ''Error'' (''Query contains prohibited keyword: '' @ k) None None))
   \<and> \<not> (\<exists>k \<in> set [''DROP'', ''DELETE'', ''TRUNCATE'', ''ALTER'', ''CREATE'', ''INSERT'', ''UPDATE''].
          js_includes (toUpperCase asciiBuiltins ''SELECT companyName FROM company LIMIT 50'') k)
   \<and> js_includes (toUpperCase asciiBuiltins ''SELECT companyName FROM company LIMIT 50'') ''SELECT''
   \<and> js_includes (toUpperCase asciiBuiltins ''SELECT companyName FROM company LIMIT 50'') ''LIMIT''
   \<and> validateAndOptimizeQuery asciiBuiltins ''SELECT companyName FROM company LIMIT 50'' =
       Inr ''SELECT companyName FROM company LIMIT 50''"
proof -
  have h1: "\<exists>k \<in> set [''DROP'', ''DELETE'', ''TRUNCATE'', ''ALTER'', ''CREATE'', ''INSERT'', ''UPDATE''].
      js_includes (toUpperCase asciiBuiltins ''drop table company'') k"
    by code_simp
  have h2: "\<not> (\<exists>k \<in> set [''DROP'', ''DELETE'', ''TRUNCATE'', ''ALTER'', ''CREATE'', ''INSERT'', ''UPDATE''].
          js_includes (toUpperCase asciiBuiltins ''SELECT companyName FROM company LIMIT 50'') k)"
    by code_simp
  have h3: "js_includes (toUpperCase asciiBuiltins ''SELECT companyName FROM company LIMIT 50'') ''SELECT''"
    by code_simp
  have h4: "js_includes (toUpperCase asciiBuiltins ''SELECT companyName FROM company LIMIT 50'') ''LIMIT''"
    by code_simp
  note c1 = guard_rejects_blocklist_and_keeps_select_limit
    [of asciiBuiltins "''drop table company''", THEN conjunct1, rule_format, OF h1]
  note c2 = guard_rejects_blocklist_and_keeps_select_limit
    [of asciiBuiltins "''SELECT companyName FROM company LIMIT 50''", THEN conjunct2, rule_format,
     OF conjI [OF h2 conjI [OF h3 h4]]]
  show ?thesis
    by (intro conjI) (rule h1 c1 h2 h3 h4 c2)+
qed

text \<open>
  C4. For every statement and whatever the engine's \<open>toUpperCase\<close> yields for it: a
  statement whose uppercased text contains SELECT, no LIMIT and none of COUNT(, SUM(,
  AVG(, GROUP BY is returned with exactly one \<open>'' LIMIT 100''\<close> appended: the guard
  returns it so when no blocklisted keyword occurs, and whatever statement the guard
  returns for such an input is the input followed by \<open>'' LIMIT 100''\<close>. A statement
  whose uppercased text contains GROUP BY, COUNT(, SUM( or AVG( is returned unchanged,
  with no LIMIT injected.
\<close>

theorem guard_appends_limit_unless_aggregate:
  "(js_includes (toUpperCase js query) ''SELECT''
      \<and> \<not> js_includes (toUpperCase js query) ''LIMIT''
      \<and> \<not> js_includes (toUpperCase js query) ''COUNT(''
      \<and> \<not> js_includes (toUpperCase js query) ''SUM(''
      \<and> \<not> js_includes (toUpperCase js query) ''AVG(''
      \<and> \<not> js_includes (toUpperCase js query) ''GROUP BY''
    \<longrightarrow> (\<not> (\<exists>k \<in> set [''DROP'', ''DELETE'', ''TRUNCATE'', ''ALTER'', ''CREATE'', ''INSERT'', ''UPDATE''].
               js_includes (toUpperCase js query) k)
           \<longrightarrow> validateAndOptimizeQuery js query = Inr (query @ '' LIMIT 100''))
        \<and> (\<forall>r. validateAndOptimizeQuery js query = Inr r \<longrightarrow> r = query @ '' LIMIT 100''))
   \<and> (js_includes (toUpperCase js query) ''GROUP BY''
        \<or> js_includes (toUpperCase js query) ''COUNT(''
        \<or> js_includes (toUpperCase js query) ''SUM(''
        \<or> js_includes (toUpperCase js query) ''AVG(''
    \<longrightarrow> (\<not> (\<exists>k \<in> set [''DROP'', ''DELETE'', ''TRUNCATE'', ''ALTER'', ''CREATE'', ''INSERT'', ''UPDATE''].
               js_includes (toUpperCase js query) k)
           \<longrightarrow> validateAndOptimizeQuery js query = Inr query)
        \<and> (\<forall>r. validateAndOptimizeQuery js query = Inr r \<longrightarrow> r = query))"
proof (cases "\<exists>k \<in> set [''DROP'', ''DELETE'', ''TRUNCATE'', ''ALTER'', ''CREATE'', ''INSERT'', ''UPDATE''].
               js_includes (toUpperCase js query) k")
  case True
  from guard_blocked [OF True] have "\<forall>r. validateAndOptimizeQuery js query \<noteq> Inr r"
    by auto
  with True show ?thesis
    by blast
next
  case False
  from guard_passed [OF False] show ?thesis
    by auto
qed

theorem guard_appends_limit_unless_aggregate_witness:
  "js_includes (toUpperCase asciiBuiltins ''select companyName from company'') ''SELECT''
   \<and> \<not> js_includes (toUpperCase asciiBuiltins ''select companyName from company'') ''LIMIT''
   \<and> \<not> js_includes (toUpperCase asciiBuiltins ''select companyName from company'') ''COUNT(''
   \<and> \<not> js_includes (toUpperCase asciiBuiltins ''select companyName from company'') ''SUM(''
   \<and> \<not> js_includes (toUpperCase asciiBuiltins ''select companyName from company'') ''AVG(''
   \<and> \<not> js_includes (toUpperCase asciiBuiltins ''select companyName from company'') ''GROUP BY''
   \<and> \<not> (\<exists>k \<in> set [''DROP'', ''DELETE'', ''TRUNCATE'', ''ALTER'', ''CREATE'', ''INSERT'', ''UPDATE''].
          js_includes (toUpperCase asciiBuiltins ''select companyName from company'') k)
   \<and> validateAndOptimizeQuery asciiBuiltins ''select companyName from company'' =
       Inr ''select companyName from company LIMIT 100''
   \<and> js_includes (toUpperCase asciiBuiltins ''SELECT status FROM company GROUP BY status'') ''GROUP BY''
   \<and> \<not> (\<exists>k \<in> set [''DROP'', ''DELETE'', ''TRUNCATE'', ''ALTER'', ''CREATE'', ''INSERT'', ''UPDATE''].
          js_includes (toUpperCase asciiBuiltins ''SELECT status FROM company GROUP BY status'') k)
   \<and> validateAndOptimizeQuery asciiBuiltins ''SELECT status FROM company GROUP BY status'' =
       Inr ''SELECT status FROM company GROUP BY status''
   \<and> js_includes (toUpperCase asciiBuiltins ''select count(*) as n from company'') ''COUNT(''
   \<and> \<not> js_includes (toUpperCase asciiBuiltins ''select count(*) as n from company'') ''GROUP BY''
   \<and> \<not> (\<exists>k \<in> set [''DROP'', ''DELETE'', ''TRUNCATE'', ''ALTER'', ''CREATE'', ''INSERT'', ''UPDATE''].
          js_includes (toUpperCase asciiBuiltins ''select count(*) as n from company'') k)
   \<and> validateAndOptimizeQuery asciiBuiltins ''select count(*) as n from company'' =
       Inr ''select count(*) as n from company''"
proof -
  have a: "js_includes (toUpperCase asciiBuiltins ''select companyName from company'') ''SELECT''
   \<and> \<not> js_includes (toUpperCase asciiBuiltins ''select companyName from company'') ''LIMIT''
   \<and> \<not> js_includes (toUpperCase asciiBuiltins ''select companyName from company'') ''COUNT(''
   \<and> \<not> js_includes (toUpperCase asciiBuiltins ''select companyName from company'') ''SUM(''
   \<and> \<not> js_includes (toUpperCase asciiBuiltins ''select companyName from company'') ''AVG(''
   \<and> \<not> js_includes (toUpperCase asciiBuiltins ''select companyName from company'') ''GROUP BY''"
    by code_simp
  have b: "\<not> (\<exists>k \<in> set [''DROP'', ''DELETE'', ''TRUNCATE'', ''ALTER'', ''CREATE'', ''INSERT'', ''UPDATE''].
          js_includes (toUpperCase asciiBuiltins ''select companyName from company'') k)"
    by code_simp
  have c: "js_includes (toUpperCase asciiBuiltins ''SELECT status FROM company GROUP BY status'') ''GROUP BY''"
    by code_simp
  have d: "\<not> (\<exists>k \<in> set [''DROP'', ''DELETE'', ''TRUNCATE'', ''ALTER'', ''CREATE'', ''INSERT'', ''UPDATE''].
          js_includes (toUpperCase asciiBuiltins ''SELECT status FROM company GROUP BY status'') k)"
    by code_simp
  have f: "js_includes (toUpperCase asciiBuiltins ''select count(*) as n from company'') ''COUNT(''"
    by code_simp
  have g: "\<not> js_includes (toUpperCase asciiBuiltins ''select count(*) as n from company'') ''GROUP BY''"
    by code_simp
  have h: "\<not> (\<exists>k \<in> set [''DROP'', ''DELETE'', ''TRUNCATE'', ''ALTER'', ''CREATE'', ''INSERT'', ''UPDATE''].
          js_includes (toUpperCase asciiBuiltins ''select count(*) as n from company'') k)"
    by code_simp
  have e: "''select companyName from company'' @ '' LIMIT 100'' =
      ''select companyName from company LIMIT 100''"
    by simp
  note r1 = guard_appends_limit_unless_aggregate
    [of asciiBuiltins "''select companyName from company''", THEN conjunct1, rule_format, OF a,
     THEN conjunct1, rule_format, OF b, unfolded e]
  note r2 = guard_appends_limit_unless_aggregate
    [of asciiBuiltins "''SELECT status FROM company GROUP BY status''", THEN conjunct2,
     rule_format, OF disjI1 [OF c], THEN conjunct1, rule_format, OF d]
  note r3 = guard_appends_limit_unless_aggregate
    [of asciiBuiltins "''select count(*) as n from company''", THEN conjunct2,
     rule_format, OF disjI2 [OF disjI1 [OF f]], THEN conjunct1, rule_format, OF h]
  from a b c d f g h r1 r2 r3 show ?thesis
    by blast
qed

section \<open>Properties of execution with retry\<close>

declare executeQuery_from.simps [simp del]

lemma pool_execute_simps [simp]:
  "fst (pool_execute sql w) = pool w (executeCalls w) sql"
  "executeCalls (snd (pool_execute sql w)) = Suc (executeCalls w)"
  "trace (snd (pool_execute sql w)) = trace w @ [Execute sql]"
  "pool (snd (pool_execute sql w)) = pool w"
  "poolEndFails (snd (pool_execute sql w)) = poolEndFails w"
  by (simp_all add: pool_execute_def)

lemma retryBackoff_simps [simp]:
  "executeCalls (retryBackoff rc w) = executeCalls w"
  "pool (retryBackoff rc w) = pool w"
  "poolEndFails (retryBackoff rc w) = poolEndFails w"
  "trace (retryBackoff rc w) =
     trace w @ Delay (2 ^ rc * 1000)
       # (if rc = 2 then (if poolEndFails w then [PoolEnd] else [PoolEnd, InitializeDatabase])
          else [])"
  by (simp_all add: retryBackoff_def wait_def recreatePool_def Let_def)

lemma executeQuery_from_unfold:
  "executeQuery_from retryCount sql w =
     (if retryCount < maxRetries then
        (case pool w (executeCalls w) sql of
           Rows rows \<Rightarrow> (Inr (Some (RowArray rows)), snd (pool_execute sql w))
         | Header \<Rightarrow> (Inr (Some ResultHeader), snd (pool_execute sql w))
         | Fails err \<Rightarrow>
             if isConnectionError err \<and> retryCount < maxRetries - 1 then
               executeQuery_from (retryCount + 1) sql
                 (retryBackoff (retryCount + 1) (snd (pool_execute sql w)))
             else (Inl err, snd (pool_execute sql w)))
      else (Inr None, w))"
  by (subst executeQuery_from.simps)
     (simp add: pool_execute_def split: db_outcome.splits)

lemma same_agent_refl: "same_agent w w"
  by (simp add: same_agent_def)

lemma same_agent_trans: "same_agent w w' \<Longrightarrow> same_agent w' w'' \<Longrightarrow> same_agent w w''"
  by (simp add: same_agent_def)

lemma same_agent_pool_execute: "same_agent w (snd (pool_execute sql w))"
  by (simp add: same_agent_def pool_execute_def)

lemma same_agent_retryBackoff: "same_agent w (retryBackoff rc w)"
  by (simp add: same_agent_def retryBackoff_def wait_def recreatePool_def Let_def)

text \<open>The retry loop touches neither the cache, the counters, the history nor the clock.\<close>

lemma executeQuery_from_same_agent:
  "same_agent w (snd (executeQuery_from rc sql w))"
proof (induction "maxRetries - rc" arbitrary: rc w)
  case 0
  then show ?case
    by (subst executeQuery_from_unfold) (simp add: same_agent_refl)
next
  case (Suc n)
  then have lt: "rc < maxRetries" and n: "n = maxRetries - (rc + 1)"
    by simp_all
  show ?case
  proof (cases "pool w (executeCalls w) sql")
    case (Rows rows)
    with lt show ?thesis
      by (subst executeQuery_from_unfold) (simp add: same_agent_pool_execute)
  next
    case Header
    with lt show ?thesis
      by (subst executeQuery_from_unfold) (simp add: same_agent_pool_execute)
  next
    case (Fails e)
    show ?thesis
    proof (cases "isConnectionError e \<and> rc < maxRetries - 1")
      case False
      with lt Fails show ?thesis
        by (subst executeQuery_from_unfold) (auto simp: same_agent_pool_execute)
    next
      case True
      have "same_agent w (retryBackoff (rc + 1) (snd (pool_execute sql w)))"
        by (rule same_agent_trans [OF same_agent_pool_execute same_agent_retryBackoff])
      from same_agent_trans [OF this Suc.hyps(1) [OF n]] lt Fails True
      show ?thesis
        by (subst executeQuery_from_unfold) simp
    qed
  qed
qed

lemma executeQuery_same_agent: "same_agent w (snd (executeQuery sql w))"
  by (simp add: executeQuery_def executeQuery_from_same_agent)

text \<open>Entered with \<open>retryCount < maxRetries\<close>, the loop never falls through its guard.\<close>

lemma executeQuery_from_defined:
  "rc < maxRetries \<Longrightarrow> fst (executeQuery_from rc sql w) \<noteq> Inr None"
proof (induction "maxRetries - rc" arbitrary: rc w)
  case 0
  then show ?case by simp
next
  case (Suc n)
  then have lt: "rc < maxRetries" and n: "n = maxRetries - (rc + 1)"
    by simp_all
  show ?case
  proof (cases "pool w (executeCalls w) sql")
    case (Rows rows)
    with lt show ?thesis
      by (subst executeQuery_from_unfold) simp
  next
    case Header
    with lt show ?thesis
      by (subst executeQuery_from_unfold) simp
  next
    case (Fails e)
    show ?thesis
    proof (cases "isConnectionError e \<and> rc < maxRetries - 1")
      case False
      with lt Fails show ?thesis
        by (subst executeQuery_from_unfold) auto
    next
      case True
      then have "rc + 1 < maxRetries" by auto
      from Suc.hyps(1) [OF n this] lt Fails True
      show ?thesis
        by (subst executeQuery_from_unfold) simp
    qed
  qed
qed

lemma executeQuery_defined: "fst (executeQuery sql w) \<noteq> Inr None"
  by (simp add: executeQuery_def executeQuery_from_defined maxRetries_def)

text \<open>Every run of the loop sends the statement to the pool at least once, first of all.\<close>

lemma executeQuery_from_calls:
  "rc < maxRetries \<Longrightarrow>
     executeCalls w < executeCalls (snd (executeQuery_from rc sql w))
     \<and> (\<exists>es. trace (snd (executeQuery_from rc sql w)) = trace w @ Execute sql # es)"
proof (induction "maxRetries - rc" arbitrary: rc w)
  case 0
  then show ?case by simp
next
  case (Suc n)
  then have lt: "rc < maxRetries" and n: "n = maxRetries - (rc + 1)"
    by simp_all
  show ?case
  proof (cases "pool w (executeCalls w) sql")
    case (Rows rows)
    with lt have "executeQuery_from rc sql w = (Inr (Some (RowArray rows)), snd (pool_execute sql w))"
      by (subst executeQuery_from_unfold) simp
    then show ?thesis by simp
  next
    case Header
    with lt have "executeQuery_from rc sql w = (Inr (Some ResultHeader), snd (pool_execute sql w))"
      by (subst executeQuery_from_unfold) simp
    then show ?thesis by simp
  next
    case (Fails e)
    show ?thesis
    proof (cases "isConnectionError e \<and> rc < maxRetries - 1")
      case False
      with lt Fails have "executeQuery_from rc sql w = (Inl e, snd (pool_execute sql w))"
        by (subst executeQuery_from_unfold) auto
      then show ?thesis by simp
    next
      case True
      then have lt': "rc + 1 < maxRetries" by auto
      have eq: "executeQuery_from rc sql w =
          executeQuery_from (rc + 1) sql (retryBackoff (rc + 1) (snd (pool_execute sql w)))"
        using lt Fails True by (subst executeQuery_from_unfold) simp
      from Suc.hyps(1) [OF n lt', of "retryBackoff (rc + 1) (snd (pool_execute sql w))"]
      show ?thesis
        unfolding eq by auto
    qed
  qed
qed

lemma executeQuery_calls:
  "executeCalls w < executeCalls (snd (executeQuery sql w))
   \<and> (\<exists>es. trace (snd (executeQuery sql w)) = trace w @ Execute sql # es)"
  by (simp add: executeQuery_def executeQuery_from_calls maxRetries_def)

lemma executeQuery_first_attempt_rows:
  "pool w (executeCalls w) sql = Rows rows \<Longrightarrow>
     executeQuery sql w = (Inr (Some (RowArray rows)), snd (pool_execute sql w))"
  unfolding executeQuery_def
  by (subst executeQuery_from_unfold) (simp add: maxRetries_def)

lemma executeQuery_first_attempt_header:
  "pool w (executeCalls w) sql = Header \<Longrightarrow>
     executeQuery sql w = (Inr (Some ResultHeader), snd (pool_execute sql w))"
  unfolding executeQuery_def
  by (subst executeQuery_from_unfold) (simp add: maxRetries_def)

lemma executeQuery_first_attempt_fatal:
  "pool w (executeCalls w) sql = Fails e \<Longrightarrow> \<not> isConnectionError e \<Longrightarrow>
     executeQuery sql w = (Inl e, snd (pool_execute sql w))"
  unfolding executeQuery_def
  by (subst executeQuery_from_unfold) (simp add: maxRetries_def)

text \<open>
  Two connection errors followed by rows: the third attempt's rows are returned, and
  the trace shows three attempts, a wait of 2000 ms after the first failure, a wait of
  4000 ms after the second, and the re-creation of the pool before the third attempt.
\<close>

lemma executeQuery_two_failures_then_rows:
  assumes f1: "pool w (executeCalls w) sql = Fails e1" and c1: "isConnectionError e1"
    and f2: "pool w (Suc (executeCalls w)) sql = Fails e2" and c2: "isConnectionError e2"
    and r3: "pool w (Suc (Suc (executeCalls w))) sql = Rows rows"
  shows "fst (executeQuery sql w) = Inr (Some (RowArray rows))
    \<and> trace (snd (executeQuery sql w)) =
        trace w @ [Execute sql, Delay 2000, Execute sql, Delay 4000]
          @ (if poolEndFails w then [PoolEnd] else [PoolEnd, InitializeDatabase])
          @ [Execute sql]"
proof -
  let ?w1 = "retryBackoff 1 (snd (pool_execute sql w))"
  let ?w2 = "retryBackoff 2 (snd (pool_execute sql ?w1))"
  have s1: "executeQuery sql w = executeQuery_from 1 sql ?w1"
    unfolding executeQuery_def using f1 c1
    by (subst executeQuery_from_unfold) (simp add: maxRetries_def)
  have s2: "executeQuery_from 1 sql ?w1 = executeQuery_from 2 sql ?w2"
    using f2 c2
    by (subst executeQuery_from_unfold) (simp add: maxRetries_def numeral_2_eq_2)
  have s3: "executeQuery_from 2 sql ?w2 = (Inr (Some (RowArray rows)), snd (pool_execute sql ?w2))"
    using r3
    by (subst executeQuery_from_unfold) (simp add: maxRetries_def)
  show ?thesis
    unfolding s1 s2 s3 by simp
qed

section \<open>Properties of the Map operations\<close>

lemma map_get_None_iff: "map_get m k = None \<longleftrightarrow> k \<notin> fst ` set m"
  by (simp add: map_get_def map_of_eq_None_iff)

lemma map_set_absent: "k \<notin> fst ` set m \<Longrightarrow> map_set m k v = m @ [(k, v)]"
  by (induction m) auto

lemma length_map_delete: "length (map_delete m k) \<le> length m"
  by (simp add: map_delete_def)

lemma distinct_map_delete: "distinct (map fst m) \<Longrightarrow> distinct (map fst (map_delete m k))"
  by (simp add: map_delete_def distinct_map_filter)

lemma map_delete_absent: "k \<notin> fst ` set (map_delete m k)"
  by (auto simp: map_delete_def)

lemma map_get_map_delete: "map_get (map_delete m k) k = None"
  by (simp add: map_get_None_iff map_delete_absent)

lemma map_get_map_delete_other: "a \<noteq> k \<Longrightarrow> map_get (map_delete m a) k = map_get m k"
  by (induction m) (auto simp: map_get_def map_delete_def)

lemma map_delete_first:
  "distinct (map fst ((k, v) # m)) \<Longrightarrow> map_delete ((k, v) # m) k = m"
  by (auto simp: map_delete_def filter_id_conv rev_image_eqI)

lemma map_get_append_new:
  "k \<notin> fst ` set m \<Longrightarrow> map_get (m @ [(k, v)]) k = Some v"
  by (simp add: map_get_def map_add_def map_of_eq_None_iff [symmetric])

section \<open>Properties of the phases of executeSqlQuery\<close>

lemma now_simps [simp]:
  "fst (now w) = clock w (clockReads w)"
  "snd (now w) = w\<lparr>clockReads := Suc (clockReads w)\<rparr>"
  by (simp_all add: now_def)

lemma addToQueryHistory_simps [simp]:
  "queryCache (addToQueryHistory q ok t n e w) = queryCache w"
  "metrics (addToQueryHistory q ok t n e w) = metrics w"
  "executeCalls (addToQueryHistory q ok t n e w) = executeCalls w"
  "trace (addToQueryHistory q ok t n e w) = trace w"
  "clock (addToQueryHistory q ok t n e w) = clock w"
  "pool (addToQueryHistory q ok t n e w) = pool w"
  "llm (addToQueryHistory q ok t n e w) = llm w"
  "llmCalls (addToQueryHistory q ok t n e w) = llmCalls w"
  "clockReads (addToQueryHistory q ok t n e w) = Suc (clockReads w)"
  by (simp_all add: addToQueryHistory_def Let_def split_beta)

lemma cacheStore_simps [simp]:
  "metrics (cacheStore k uc rows w) = metrics w"
  "executeCalls (cacheStore k uc rows w) = executeCalls w"
  "trace (cacheStore k uc rows w) = trace w"
  "clock (cacheStore k uc rows w) = clock w"
  "pool (cacheStore k uc rows w) = pool w"
  "llm (cacheStore k uc rows w) = llm w"
  "llmCalls (cacheStore k uc rows w) = llmCalls w"
  by (simp_all add: cacheStore_def Let_def split_beta split: list.splits)

lemma cacheStore_off:
  "\<not> (uc \<and> rows \<noteq> [] \<and> length rows < 1000) \<Longrightarrow> cacheStore k uc rows w = w"
  by (auto simp: cacheStore_def)

text \<open>
  Storing under a key the cache does not hold appends the entry; when that makes more
  than 100 entries, every entry under the first key is removed.
\<close>

lemma cacheStore_absent:
  assumes "k \<notin> fst ` set (queryCache w)" "rows \<noteq> []" "length rows < 1000"
  shows "queryCache (cacheStore k True rows w) =
           (let c = queryCache w @ [(k, \<lparr>result = rows, timestamp = clock w (clockReads w)\<rparr>)]
            in if length c > 100 then map_delete c (fst (hd c)) else c)"
  using assms
  by (cases "queryCache w")
     (auto simp: cacheStore_def Let_def split_beta map_set_absent split: list.splits)

lemma cacheStore_wellFormed:
  assumes wf: "cacheWellFormed (queryCache w)" and absent: "uc \<longrightarrow> k \<notin> fst ` set (queryCache w)"
  shows "cacheWellFormed (queryCache (cacheStore k uc rows w))"
proof (cases "uc \<and> rows \<noteq> [] \<and> length rows < 1000")
  case False
  then show ?thesis
    using wf by (simp add: cacheStore_off)
next
  case True
  let ?e = "\<lparr>result = rows, timestamp = clock w (clockReads w)\<rparr>"
  let ?c = "queryCache w @ [(k, ?e)]"
  from True absent have k: "k \<notin> fst ` set (queryCache w)" by simp
  from wf k have d: "distinct (map fst ?c)"
    by (simp add: cacheWellFormed_def)
  have eq: "queryCache (cacheStore k uc rows w) =
      (if length ?c > 100 then map_delete ?c (fst (hd ?c)) else ?c)"
    using cacheStore_absent [OF k] True by (simp add: Let_def)
  show ?thesis
  proof (cases "length ?c > 100")
    case False
    with d eq show ?thesis
      by (simp add: cacheWellFormed_def)
  next
    case long: True
    then obtain p ps where c: "?c = p # ps"
      by (cases ?c) auto
    obtain a b where p: "p = (a, b)"
      by (cases p)
    from d c p have "map_delete ?c (fst (hd ?c)) = ps"
      using map_delete_first [of a b ps] by simp
    moreover from wf c have "length ps \<le> 100"
      by (simp add: cacheWellFormed_def) (metis length_Cons length_append_singleton Suc_le_mono)
    moreover from d c have "distinct (map fst ps)"
      by simp
    ultimately show ?thesis
      using eq long by (simp add: cacheWellFormed_def)
  qed
qed

text \<open>A full cache: the oldest entry goes, the new one is last.\<close>

lemma cacheStore_full:
  assumes wf: "cacheWellFormed (queryCache w)" and full: "length (queryCache w) = 100"
    and k: "k \<notin> fst ` set (queryCache w)" and rows: "rows \<noteq> []" "length rows < 1000"
  shows "queryCache (cacheStore k True rows w) =
           tl (queryCache w) @ [(k, \<lparr>result = rows, timestamp = clock w (clockReads w)\<rparr>)]"
proof -
  let ?e = "\<lparr>result = rows, timestamp = clock w (clockReads w)\<rparr>"
  from full obtain p ps where c: "queryCache w = p # ps"
    by (cases "queryCache w") auto
  obtain a b where p: "p = (a, b)"
    by (cases p)
  from wf k c p have d: "distinct (map fst ((a, b) # ps @ [(k, ?e)]))"
    by (auto simp: cacheWellFormed_def)
  from cacheStore_absent [OF k rows] full c p
  have "queryCache (cacheStore k True rows w) = map_delete ((a, b) # ps @ [(k, ?e)]) a"
    by (simp add: Let_def)
  also have "\<dots> = ps @ [(k, ?e)]"
    by (rule map_delete_first [OF d])
  finally show ?thesis
    using c by simp
qed

text \<open>A stored entry is not the one evicted.\<close>

lemma cacheStore_stores:
  assumes k: "k \<notin> fst ` set (queryCache w)" and rows: "rows \<noteq> []" "length rows < 1000"
  shows "map_get (queryCache (cacheStore k True rows w)) k =
           Some \<lparr>result = rows, timestamp = clock w (clockReads w)\<rparr>"
proof -
  let ?e = "\<lparr>result = rows, timestamp = clock w (clockReads w)\<rparr>"
  let ?c = "queryCache w @ [(k, ?e)]"
  have new: "map_get ?c k = Some ?e"
    by (rule map_get_append_new [OF k])
  show ?thesis
  proof (cases "length ?c > 100")
    case False
    with cacheStore_absent [OF k rows] new show ?thesis
      by (simp add: Let_def)
  next
    case True
    then obtain p ps where c: "queryCache w = p # ps"
      by (cases "queryCache w") auto
    with k have ne: "fst p \<noteq> k"
      by auto
    have "map_get (map_delete ?c (fst (hd ?c))) k = map_get ?c k"
      using ne c by (simp add: map_get_map_delete_other)
    with cacheStore_absent [OF k rows] True new show ?thesis
      by (simp add: Let_def)
  qed
qed

lemma countQuery_simps [simp]:
  "queryCache (countQuery w) = queryCache w"
  "executeCalls (countQuery w) = executeCalls w"
  "trace (countQuery w) = trace w"
  "clock (countQuery w) = clock w"
  "clockReads (countQuery w) = clockReads w"
  "pool (countQuery w) = pool w"
  "cacheHits (metrics (countQuery w)) = cacheHits (metrics w)"
  by (simp_all add: countQuery_def)

lemma cacheCheck_absent:
  "(uc \<longrightarrow> map_get (queryCache w) k = None) \<Longrightarrow> cacheCheck k uc st w = (None, w)"
  by (auto simp: cacheCheck_def)

lemma cacheCheck_hit:
  assumes "map_get (queryCache w) k = Some e"
    and "clock w (clockReads w) - timestamp e < cacheTimeout"
  shows "cacheCheck k True st w =
           (Some \<lparr>success = True, data = Some (RowArray (result e)),
                  executionTime = clock w (Suc (clockReads w)) - st, fromCache = Some True,
                  rowCount = None, error = None, errorCode = None\<rparr>,
            w\<lparr>clockReads := Suc (Suc (clockReads w)),
              metrics := (metrics w)\<lparr>cacheHits := Suc (cacheHits (metrics w))\<rparr>\<rparr>)"
  using assms by (simp add: cacheCheck_def Let_def split_beta)

lemma cacheCheck_expired:
  assumes "map_get (queryCache w) k = Some e"
    and "\<not> clock w (clockReads w) - timestamp e < cacheTimeout"
  shows "cacheCheck k True st w =
           (None, w\<lparr>clockReads := Suc (clockReads w),
                     queryCache := map_delete (queryCache w) k\<rparr>)"
  using assms by (simp add: cacheCheck_def Let_def split_beta)

text \<open>When the check does not answer, the key is not in the cache it leaves behind.\<close>

lemma cacheCheck_None:
  assumes "cacheCheck k uc st w = (None, w3)"
  shows "(uc \<longrightarrow> map_get (queryCache w3) k = None)
    \<and> (queryCache w3 = queryCache w \<or> queryCache w3 = map_delete (queryCache w) k)
    \<and> executeCalls w3 = executeCalls w \<and> trace w3 = trace w \<and> pool w3 = pool w
    \<and> clock w3 = clock w \<and> metrics w3 = metrics w
    \<and> clockReads w3 =
        (if uc \<and> map_get (queryCache w) k \<noteq> None then Suc (clockReads w) else clockReads w)"
proof (cases "uc \<and> map_get (queryCache w) k \<noteq> None")
  case False
  then have "cacheCheck k uc st w = (None, w)"
    by (intro cacheCheck_absent) auto
  with assms False show ?thesis
    by auto
next
  case True
  then obtain e where e: "map_get (queryCache w) k = Some e" and uc: uc
    by auto
  show ?thesis
  proof (cases "clock w (clockReads w) - timestamp e < cacheTimeout")
    case True
    from cacheCheck_hit [OF e True, of st] assms uc show ?thesis
      by simp
  next
    case False
    from cacheCheck_expired [OF e False, of st] assms uc e show ?thesis
      by (auto simp: map_get_map_delete)
  qed
qed

lemma executionFailed_simps [simp]:
  "success (fst (executionFailed q st e w)) = False"
  "fromCache (fst (executionFailed q st e w)) = None"
  "data (fst (executionFailed q st e w)) = None"
  "rowCount (fst (executionFailed q st e w)) = None"
  "error (fst (executionFailed q st e w)) = Some (errorMessageFor e)"
  "queryCache (snd (executionFailed q st e w)) = queryCache w"
  "executeCalls (snd (executionFailed q st e w)) = executeCalls w"
  "trace (snd (executionFailed q st e w)) = trace w"
  "cacheHits (metrics (snd (executionFailed q st e w))) = cacheHits (metrics w)"
  by (simp_all add: executionFailed_def Let_def split_beta)

lemma rowsUndefined_simps [simp]:
  "success (fst (rowsUndefined q uc st w)) = False"
  "fromCache (fst (rowsUndefined q uc st w)) = None"
  "queryCache (snd (rowsUndefined q uc st w)) = queryCache w"
  "executeCalls (snd (rowsUndefined q uc st w)) = executeCalls w"
  "trace (snd (rowsUndefined q uc st w)) = trace w"
  "cacheHits (metrics (snd (rowsUndefined q uc st w))) = cacheHits (metrics w)"
  by (simp_all add: rowsUndefined_def Let_def split_beta)

lemma executionSucceeded_simps [simp]:
  "fst (executionSucceeded q k uc st rows w) =
     \<lparr>success = True, data = Some (RowArray rows), executionTime = clock w (clockReads w) - st,
      fromCache = Some False, rowCount = Some (length rows), error = None,
      errorCode = None\<rparr>"
  "queryCache (snd (executionSucceeded q k uc st rows w)) =
     queryCache (cacheStore k uc rows (w\<lparr>clockReads := Suc (clockReads w)\<rparr>))"
  "executeCalls (snd (executionSucceeded q k uc st rows w)) = executeCalls w"
  "trace (snd (executionSucceeded q k uc st rows w)) = trace w"
  "cacheHits (metrics (snd (executionSucceeded q k uc st rows w))) = cacheHits (metrics w)"
  by (simp_all add: executionSucceeded_def Let_def split_beta)

lemma headerSucceeded_simps [simp]:
  "fst (headerSucceeded q st w) =
     \<lparr>success = True, data = Some ResultHeader, executionTime = clock w (clockReads w) - st,
      fromCache = Some False, rowCount = None, error = None, errorCode = None\<rparr>"
  "queryCache (snd (headerSucceeded q st w)) = queryCache w"
  "executeCalls (snd (headerSucceeded q st w)) = executeCalls w"
  "trace (snd (headerSucceeded q st w)) = trace w"
  "cacheHits (metrics (snd (headerSucceeded q st w))) = cacheHits (metrics w)"
  by (simp_all add: headerSucceeded_def Let_def split_beta)

text \<open>
  What running the statement (lines 630-687) does, whatever the pool answers: the
  statement reaches the pool; the result is never flagged as cached, and a successful
  one is flagged \<open>fromCache = false\<close> and carries what the pool resolved with and its
  \<open>length\<close>.
\<close>

lemma executeAndRecord_effects:
  assumes run: "executeAndRecord query k uc st w = (r, w')"
  shows "executeCalls w < executeCalls w'"
    and "\<exists>es. trace w' = trace w @ Execute query # es"
    and "cacheHits (metrics w') = cacheHits (metrics w)"
    and "fromCache r \<noteq> Some True"
    and "success r \<Longrightarrow> fromCache r = Some False
           \<and> (\<exists>v. data r = Some v \<and> rowCount r = valueLength v
                \<and> fst (executeQuery query w) = Inr (Some v))"
proof -
  obtain x w1 where eq: "executeQuery query w = (x, w1)"
    by (cases "executeQuery query w")
  from executeQuery_calls [of w query] eq
  have calls: "executeCalls w < executeCalls w1"
    and tr: "\<exists>es. trace w1 = trace w @ Execute query # es"
    by simp_all
  from executeQuery_same_agent [of w query] eq
  have hits: "metrics w1 = metrics w"
    by (simp add: same_agent_def)
  have r: "(r, w') = (case x of
        Inr (Some (RowArray rows)) \<Rightarrow> executionSucceeded query k uc st rows w1
      | Inr (Some ResultHeader) \<Rightarrow> headerSucceeded query st w1
      | Inr None \<Rightarrow> rowsUndefined query uc st w1
      | Inl e \<Rightarrow> executionFailed query st e w1)"
    using run eq by (simp add: executeAndRecord_def split: sum.splits option.splits query_value.splits)
  have fs: "r = fst (r, w')" "w' = snd (r, w')"
    by simp_all
  show "executeCalls w < executeCalls w'"
    using calls by (subst fs(2), subst r) (simp split: sum.splits option.splits query_value.splits)
  show "\<exists>es. trace w' = trace w @ Execute query # es"
    using tr by (subst fs(2), subst r) (simp split: sum.splits option.splits query_value.splits)
  show "cacheHits (metrics w') = cacheHits (metrics w)"
    using hits by (subst fs(2), subst r) (simp split: sum.splits option.splits query_value.splits)
  show "fromCache r \<noteq> Some True"
    by (subst fs(1), subst r) (simp split: sum.splits option.splits query_value.splits)
  show "fromCache r = Some False
           \<and> (\<exists>v. data r = Some v \<and> rowCount r = valueLength v
                \<and> fst (executeQuery query w) = Inr (Some v))" if "success r"
    using that eq by (subst (asm) fs(1), subst (1 2 3) fs(1), subst (asm) r, subst (1 2 3) r)
      (simp split: sum.splits option.splits query_value.splits)
qed

lemma executeAndRecord_first_attempt_rows:
  assumes "pool w (executeCalls w) query = Rows rows"
  shows "fst (executeAndRecord query k uc st w) =
           \<lparr>success = True, data = Some (RowArray rows), executionTime = clock w (clockReads w) - st,
            fromCache = Some False, rowCount = Some (length rows), error = None,
            errorCode = None\<rparr>"
  using executeQuery_first_attempt_rows [OF assms]
  by (simp add: executeAndRecord_def pool_execute_def)

text \<open>The cache after running the statement, when the key was not in it before.\<close>

lemma executeAndRecord_cache:
  assumes run: "executeAndRecord query k uc st w = (r, w')"
    and absent: "uc \<longrightarrow> map_get (queryCache w) k = None"
  shows "cacheWellFormed (queryCache w) \<Longrightarrow> cacheWellFormed (queryCache w')"
    and "uc \<Longrightarrow> success r \<Longrightarrow> data r = Some (RowArray rows) \<Longrightarrow> rows \<noteq> [] \<Longrightarrow> length rows < 1000 \<Longrightarrow>
           map_get (queryCache w') k =
             Some \<lparr>result = rows, timestamp = clock w (Suc (clockReads w))\<rparr>
           \<and> (cacheWellFormed (queryCache w) \<longrightarrow> length (queryCache w) = 100 \<longrightarrow>
                queryCache w' = tl (queryCache w)
                  @ [(k, \<lparr>result = rows, timestamp = clock w (Suc (clockReads w))\<rparr>)])"
proof -
  obtain x w1 where eq: "executeQuery query w = (x, w1)"
    by (cases "executeQuery query w")
  from executeQuery_same_agent [of w query] eq
  have same: "queryCache w1 = queryCache w" "clock w1 = clock w" "clockReads w1 = clockReads w"
    by (simp_all add: same_agent_def)
  let ?w2 = "w1\<lparr>clockReads := Suc (clockReads w1)\<rparr>"
  have r: "(r, w') = (case x of
        Inr (Some (RowArray rows)) \<Rightarrow> executionSucceeded query k uc st rows w1
      | Inr (Some ResultHeader) \<Rightarrow> headerSucceeded query st w1
      | Inr None \<Rightarrow> rowsUndefined query uc st w1
      | Inl e \<Rightarrow> executionFailed query st e w1)"
    using run eq by (simp add: executeAndRecord_def split: sum.splits option.splits query_value.splits)
  have fs: "r = fst (r, w')" "w' = snd (r, w')"
    by simp_all
  have cache: "queryCache w' = (case x of
        Inr (Some (RowArray rows)) \<Rightarrow> queryCache (cacheStore k uc rows ?w2)
      | _ \<Rightarrow> queryCache w)"
    using same by (subst fs(2), subst r) (simp split: sum.splits option.splits query_value.splits)
  have absent2: "uc \<longrightarrow> k \<notin> fst ` set (queryCache ?w2)"
    using absent same by (simp add: map_get_None_iff)
  show "cacheWellFormed (queryCache w')" if wf: "cacheWellFormed (queryCache w)"
  proof -
    have "cacheWellFormed (queryCache ?w2)"
      using wf same by simp
    from cacheStore_wellFormed [OF this absent2] wf show ?thesis
      unfolding cache by (simp split: sum.splits option.splits query_value.splits)
  qed
  show "map_get (queryCache w') k =
             Some \<lparr>result = rows, timestamp = clock w (Suc (clockReads w))\<rparr>
           \<and> (cacheWellFormed (queryCache w) \<longrightarrow> length (queryCache w) = 100 \<longrightarrow>
                queryCache w' = tl (queryCache w)
                  @ [(k, \<lparr>result = rows, timestamp = clock w (Suc (clockReads w))\<rparr>)])"
    if uc: uc and ok: "success r" and d: "data r = Some (RowArray rows)"
      and rows: "rows \<noteq> []" "length rows < 1000"
  proof -
    have x: "x = Inr (Some (RowArray rows))"
      using ok d by (subst (asm) (1 2) fs(1), subst (asm) (1 2) r)
        (simp split: sum.splits option.splits query_value.splits)
    from uc absent2 have k: "k \<notin> fst ` set (queryCache ?w2)"
      by simp
    have c: "queryCache w' = queryCache (cacheStore k True rows ?w2)"
      using cache x uc by simp
    have "map_get (queryCache w') k =
        Some \<lparr>result = rows, timestamp = clock w (Suc (clockReads w))\<rparr>"
      using cacheStore_stores [OF k rows] same unfolding c by simp
    moreover have "queryCache w' = tl (queryCache w)
          @ [(k, \<lparr>result = rows, timestamp = clock w (Suc (clockReads w))\<rparr>)]"
      if "cacheWellFormed (queryCache w)" "length (queryCache w) = 100"
      using cacheStore_full [of ?w2 k rows] that k rows same unfolding c by simp
    ultimately show ?thesis
      by blast
  qed
qed

lemma executeAndRecord_first_attempt_header:
  assumes "pool w (executeCalls w) query = Header"
  shows "fst (executeAndRecord query k uc st w) =
           \<lparr>success = True, data = Some ResultHeader, executionTime = clock w (clockReads w) - st,
            fromCache = Some False, rowCount = None, error = None, errorCode = None\<rparr>"
  using executeQuery_first_attempt_header [OF assms]
  by (simp add: executeAndRecord_def pool_execute_def)

section \<open>Properties of executeSqlQuery\<close>

lemma executeSqlQuery_unfold:
  "executeSqlQuery query uc w =
     (case cacheCheck (generateCacheKey query) uc (clock w (clockReads w))
             (countQuery (w\<lparr>clockReads := Suc (clockReads w)\<rparr>)) of
        (Some hit, w3) \<Rightarrow> (hit, w3)
      | (None, w3) \<Rightarrow>
          executeAndRecord query (generateCacheKey query) uc (clock w (clockReads w)) w3)"
  by (simp add: executeSqlQuery_def now_def Let_def)

lemma cacheCheck_Some:
  assumes "cacheCheck k uc st w = (Some h, w3)"
  shows "uc \<and> (\<exists>e. map_get (queryCache w) k = Some e
                \<and> clock w (clockReads w) - timestamp e < cacheTimeout
                \<and> data h = Some (RowArray (result e)))
    \<and> success h \<and> fromCache h = Some True \<and> rowCount h = None
    \<and> queryCache w3 = queryCache w \<and> executeCalls w3 = executeCalls w \<and> trace w3 = trace w"
proof (cases "uc \<and> map_get (queryCache w) k \<noteq> None")
  case False
  then have "cacheCheck k uc st w = (None, w)"
    by (intro cacheCheck_absent) auto
  with assms show ?thesis
    by simp
next
  case True
  then obtain e where e: "map_get (queryCache w) k = Some e" and uc: uc
    by auto
  show ?thesis
  proof (cases "clock w (clockReads w) - timestamp e < cacheTimeout")
    case fresh: True
    from cacheCheck_hit [OF e fresh, of st] assms uc e fresh show ?thesis
      by auto
  next
    case False
    from cacheCheck_expired [OF e False, of st] assms uc show ?thesis
      by simp
  qed
qed

text \<open>A cache hit, in full: the result object and the world it leaves.\<close>

lemma executeSqlQuery_hit:
  assumes e: "map_get (queryCache w) (generateCacheKey query) = Some e"
    and fresh: "clock w (Suc (clockReads w)) - timestamp e < cacheTimeout"
  shows "executeSqlQuery query True w =
           (\<lparr>success = True, data = Some (RowArray (result e)),
             executionTime = clock w (Suc (Suc (clockReads w))) - clock w (clockReads w),
             fromCache = Some True, rowCount = None, error = None, errorCode = None\<rparr>,
            (countQuery (w\<lparr>clockReads := Suc (clockReads w)\<rparr>))
              \<lparr>clockReads := Suc (Suc (Suc (clockReads w))),
               metrics := (metrics (countQuery w))
                 \<lparr>cacheHits := Suc (cacheHits (metrics w))\<rparr>\<rparr>)"
proof -
  let ?s = "countQuery (w\<lparr>clockReads := Suc (clockReads w)\<rparr>)"
  have "map_get (queryCache ?s) (generateCacheKey query) = Some e"
    using e by simp
  moreover have "clock ?s (clockReads ?s) - timestamp e < cacheTimeout"
    using fresh by simp
  ultimately have "cacheCheck (generateCacheKey query) True (clock w (clockReads w)) ?s =
      (Some \<lparr>success = True, data = Some (RowArray (result e)),
             executionTime = clock ?s (Suc (clockReads ?s)) - clock w (clockReads w),
             fromCache = Some True, rowCount = None, error = None, errorCode = None\<rparr>,
       ?s\<lparr>clockReads := Suc (Suc (clockReads ?s)),
          metrics := (metrics ?s)\<lparr>cacheHits := Suc (cacheHits (metrics ?s))\<rparr>\<rparr>)"
    by (rule cacheCheck_hit)
  then show ?thesis
    by (simp add: executeSqlQuery_unfold) (simp add: countQuery_def)
qed

text \<open>An expired entry: the key is deleted and the statement is run.\<close>

lemma executeSqlQuery_expired:
  assumes e: "map_get (queryCache w) (generateCacheKey query) = Some e"
    and old: "\<not> clock w (Suc (clockReads w)) - timestamp e < cacheTimeout"
  shows "executeSqlQuery query True w =
           executeAndRecord query (generateCacheKey query) True (clock w (clockReads w))
             ((countQuery (w\<lparr>clockReads := Suc (clockReads w)\<rparr>))
                \<lparr>clockReads := Suc (Suc (clockReads w)),
                 queryCache := map_delete (queryCache w) (generateCacheKey query)\<rparr>)"
proof -
  let ?s = "countQuery (w\<lparr>clockReads := Suc (clockReads w)\<rparr>)"
  have "map_get (queryCache ?s) (generateCacheKey query) = Some e"
    using e by simp
  moreover have "\<not> clock ?s (clockReads ?s) - timestamp e < cacheTimeout"
    using old by simp
  ultimately have "cacheCheck (generateCacheKey query) True (clock w (clockReads w)) ?s =
      (None, ?s\<lparr>clockReads := Suc (clockReads ?s),
                 queryCache := map_delete (queryCache ?s) (generateCacheKey query)\<rparr>)"
    by (rule cacheCheck_expired)
  then show ?thesis
    by (simp add: executeSqlQuery_unfold)
qed

lemma executeSqlQuery_absent:
  assumes "uc \<longrightarrow> map_get (queryCache w) (generateCacheKey query) = None"
  shows "executeSqlQuery query uc w =
           executeAndRecord query (generateCacheKey query) uc (clock w (clockReads w))
             (countQuery (w\<lparr>clockReads := Suc (clockReads w)\<rparr>))"
proof -
  let ?s = "countQuery (w\<lparr>clockReads := Suc (clockReads w)\<rparr>)"
  have "uc \<longrightarrow> map_get (queryCache ?s) (generateCacheKey query) = None"
    using assms by simp
  then have "cacheCheck (generateCacheKey query) uc (clock w (clockReads w)) ?s = (None, ?s)"
    by (rule cacheCheck_absent)
  then show ?thesis
    by (simp add: executeSqlQuery_unfold)
qed

text \<open>Every call leaves a cache of at most 100 entries with distinct keys.\<close>

lemma executeSqlQuery_wellFormed:
  assumes wf: "cacheWellFormed (queryCache w)"
  shows "cacheWellFormed (queryCache (snd (executeSqlQuery query uc w)))"
proof -
  let ?s = "countQuery (w\<lparr>clockReads := Suc (clockReads w)\<rparr>)"
  let ?k = "generateCacheKey query"
  obtain h w3 where cc: "cacheCheck ?k uc (clock w (clockReads w)) ?s = (h, w3)"
    by (cases "cacheCheck ?k uc (clock w (clockReads w)) ?s")
  show ?thesis
  proof (cases h)
    case (Some hit)
    with cc have cc': "cacheCheck ?k uc (clock w (clockReads w)) ?s = (Some hit, w3)"
      by simp
    from cacheCheck_Some [OF cc'] cc' wf show ?thesis
      by (simp add: executeSqlQuery_unfold)
  next
    case None
    with cc have cc': "cacheCheck ?k uc (clock w (clockReads w)) ?s = (None, w3)"
      by simp
    from cacheCheck_None [OF cc']
    have absent: "uc \<longrightarrow> map_get (queryCache w3) ?k = None"
      and c3: "queryCache w3 = queryCache w \<or> queryCache w3 = map_delete (queryCache w) ?k"
      by simp_all
    from c3 wf have wf3: "cacheWellFormed (queryCache w3)"
      using length_map_delete [of "queryCache w" ?k] distinct_map_delete [of "queryCache w" ?k]
      by (auto simp: cacheWellFormed_def)
    obtain r w' where run: "executeAndRecord query ?k uc (clock w (clockReads w)) w3 = (r, w')"
      by (cases "executeAndRecord query ?k uc (clock w (clockReads w)) w3")
    from executeAndRecord_cache(1) [OF run absent wf3] cc None run show ?thesis
      by (simp add: executeSqlQuery_unfold)
  qed
qed

lemma executeSqlQueries_wellFormed:
  "cacheWellFormed (queryCache w) \<Longrightarrow> cacheWellFormed (queryCache (executeSqlQueries calls w))"
proof (induction calls arbitrary: w)
  case Nil
  then show ?case by simp
next
  case (Cons c calls)
  obtain query uc where c: "c = (query, uc)"
    by (cases c)
  from Cons.IH [OF executeSqlQuery_wellFormed [OF Cons.prems, of query uc]] c
  show ?case by simp
qed

lemma newAgent_wellFormed: "cacheWellFormed (queryCache (newAgent schemas clk db endFails model))"
  by (simp add: newAgent_def cacheWellFormed_def)

text \<open>
  A fresh execution with caching on that returns between 1 and 999 rows leaves those
  rows in the cache under the statement's key, stamped with the clock reading taken for
  the entry (the last but one reading of the call).
\<close>

lemma executeSqlQuery_inserts:
  assumes run: "executeSqlQuery query True w = (r, w')"
    and ok: "success r" and fresh: "fromCache r = Some False"
    and d: "data r = Some (RowArray rows)" and rows: "rows \<noteq> []" "length rows < 1000"
  shows "map_get (queryCache w') (generateCacheKey query) =
           Some \<lparr>result = rows,
                 timestamp = clock w (clockReads w
                   + (if map_get (queryCache w) (generateCacheKey query) = None then 2 else 3))\<rparr>"
proof -
  let ?s = "countQuery (w\<lparr>clockReads := Suc (clockReads w)\<rparr>)"
  let ?k = "generateCacheKey query"
  obtain h w3 where cc: "cacheCheck ?k True (clock w (clockReads w)) ?s = (h, w3)"
    by (cases "cacheCheck ?k True (clock w (clockReads w)) ?s")
  show ?thesis
  proof (cases h)
    case (Some hit)
    with cc have cc': "cacheCheck ?k True (clock w (clockReads w)) ?s = (Some hit, w3)"
      by simp
    from cacheCheck_Some [OF cc'] cc' run fresh show ?thesis
      by (simp add: executeSqlQuery_unfold)
  next
    case None
    with cc have cc': "cacheCheck ?k True (clock w (clockReads w)) ?s = (None, w3)"
      by simp
    from cacheCheck_None [OF cc']
    have absent: "True \<longrightarrow> map_get (queryCache w3) ?k = None"
      and clk: "clock w3 = clock w"
      and reads: "clockReads w3 = (if map_get (queryCache w) ?k \<noteq> None
                    then Suc (Suc (clockReads w)) else Suc (clockReads w))"
      by simp_all
    from cc None run
    have run3: "executeAndRecord query ?k True (clock w (clockReads w)) w3 = (r, w')"
      by (simp add: executeSqlQuery_unfold)
    from executeAndRecord_cache(2) [OF run3 absent TrueI ok d rows] clk reads show ?thesis
      by (simp add: numeral_2_eq_2 numeral_3_eq_3)
  qed
qed

lemma rowsUndefined_result [simp]:
  "data (fst (rowsUndefined q uc st w)) = None"
  "rowCount (fst (rowsUndefined q uc st w)) = None"
  "error (fst (rowsUndefined q uc st w)) = Some (errorMessageFor undefinedLengthError)"
  by (simp_all add: rowsUndefined_def Let_def split_beta)

text \<open>
  A failure object of \<open>executeSqlQuery\<close> has an error message and neither rows, nor a
  row count, nor a \<open>fromCache\<close> flag.
\<close>

lemma executeAndRecord_failure:
  assumes "\<not> success (fst (executeAndRecord q k uc st w))"
  shows "fromCache (fst (executeAndRecord q k uc st w)) = None
    \<and> rowCount (fst (executeAndRecord q k uc st w)) = None
    \<and> data (fst (executeAndRecord q k uc st w)) = None
    \<and> (\<exists>e. error (fst (executeAndRecord q k uc st w)) = Some (errorMessageFor e))"
proof -
  obtain x w1 where eq: "executeQuery q w = (x, w1)"
    by (cases "executeQuery q w")
  show ?thesis
  proof (cases x)
    case (Inl e)
    with eq show ?thesis
      by (auto simp: executeAndRecord_def)
  next
    case (Inr y)
    show ?thesis
    proof (cases y)
      case None
      with eq Inr show ?thesis
        by (auto simp: executeAndRecord_def)
    next
      case (Some v)
      with eq Inr assms show ?thesis
        by (cases v) (simp_all add: executeAndRecord_def)
    qed
  qed
qed

lemma executeSqlQuery_failure:
  assumes "\<not> success (fst (executeSqlQuery q uc w))"
  shows "fromCache (fst (executeSqlQuery q uc w)) = None
    \<and> rowCount (fst (executeSqlQuery q uc w)) = None
    \<and> data (fst (executeSqlQuery q uc w)) = None
    \<and> (\<exists>e. error (fst (executeSqlQuery q uc w)) = Some (errorMessageFor e))"
proof -
  let ?s = "countQuery (w\<lparr>clockReads := Suc (clockReads w)\<rparr>)"
  let ?k = "generateCacheKey q"
  obtain h w3 where cc: "cacheCheck ?k uc (clock w (clockReads w)) ?s = (h, w3)"
    by (cases "cacheCheck ?k uc (clock w (clockReads w)) ?s")
  show ?thesis
  proof (cases h)
    case (Some hit)
    with cc have cc': "cacheCheck ?k uc (clock w (clockReads w)) ?s = (Some hit, w3)"
      by simp
    from cacheCheck_Some [OF cc'] cc' assms show ?thesis
      by (simp add: executeSqlQuery_unfold)
  next
    case None
    with cc have eq: "executeSqlQuery q uc w =
        executeAndRecord q ?k uc (clock w (clockReads w)) w3"
      by (simp add: executeSqlQuery_unfold)
    from assms show ?thesis
      unfolding eq by (rule executeAndRecord_failure)
  qed
qed

section \<open>The query cache\<close>

text \<open>
  C5, as stated, fails when the re-execution after expiry fails: here the entry is
  800 s old at the check, the statement is sent to the store again, the store rejects
  it, and the returned failure object has no \<open>fromCache\<close> field (it is not
  \<open>false\<close>).
\<close>

theorem expired_fetch_on_failing_store_counterexample:
  "map_get (queryCache outageAgentAfterFetch) (generateCacheKey companyQuery1) =
     Some \<lparr>result = [''Acme''], timestamp = 800000\<rparr>
   \<and> clock outageAgentAfterFetch (Suc (clockReads outageAgentAfterFetch)) - 800000 = 1200000
   \<and> cacheTimeout \<le> clock outageAgentAfterFetch (Suc (clockReads outageAgentAfterFetch)) - 800000
   \<and> executeCalls (snd (executeSqlQuery companyQuery1 True outageAgentAfterFetch)) =
       Suc (executeCalls outageAgentAfterFetch)
   \<and> success (fst (executeSqlQuery companyQuery1 True outageAgentAfterFetch)) = False
   \<and> fromCache (fst (executeSqlQuery companyQuery1 True outageAgentAfterFetch)) = None
   \<and> fromCache (fst (executeSqlQuery companyQuery1 True outageAgentAfterFetch)) \<noteq> Some False"
  by code_simp

text \<open>
  C5, amended. A fresh execution with caching on that returns between 1 and 999 rows
  inserts them under the statement's key, stamped with the clock reading taken for the
  entry. For every key with an entry in the cache, a fetch with caching on whose clock
  reading at the check is less than 300000 ms after the entry's timestamp returns
  exactly the stored rows, flagged \<open>fromCache = true\<close>, increments \<open>cacheHits\<close> and
  sends nothing to the pool. A fetch at or after 300000 ms sends the statement to the
  pool again and leaves \<open>cacheHits\<close> alone; its result is never flagged as cached:
  when the execution succeeds (as it does when the pool answers the first attempt with
  rows) it is flagged \<open>fromCache = false\<close>, and when it fails the result has no
  \<open>fromCache\<close> field.
\<close>

theorem cache_fetch_within_ttl_and_after_expiry:
  "(executeSqlQuery query True w0 = (r0, w) \<and> success r0 \<and> fromCache r0 = Some False
      \<and> data r0 = Some (RowArray rows) \<and> rows \<noteq> [] \<and> length rows < 1000
    \<longrightarrow> map_get (queryCache w) (generateCacheKey query) =
          Some \<lparr>result = rows,
                timestamp = clock w0 (clockReads w0
                  + (if map_get (queryCache w0) (generateCacheKey query) = None then 2 else 3))\<rparr>)
   \<and> (map_get (queryCache w) (generateCacheKey query) = Some entry
      \<and> executeSqlQuery query True w = (r, w')
      \<and> clock w (Suc (clockReads w)) - timestamp entry < cacheTimeout
    \<longrightarrow> success r \<and> data r = Some (RowArray (result entry)) \<and> fromCache r = Some True
        \<and> cacheHits (metrics w') = Suc (cacheHits (metrics w))
        \<and> executeCalls w' = executeCalls w \<and> trace w' = trace w)
   \<and> (map_get (queryCache w) (generateCacheKey query) = Some entry
      \<and> executeSqlQuery query True w = (r, w')
      \<and> cacheTimeout \<le> clock w (Suc (clockReads w)) - timestamp entry
    \<longrightarrow> executeCalls w < executeCalls w'
        \<and> (\<exists>es. trace w' = trace w @ Execute query # es)
        \<and> cacheHits (metrics w') = cacheHits (metrics w)
        \<and> fromCache r \<noteq> Some True
        \<and> (success r \<longrightarrow> fromCache r = Some False)
        \<and> (\<not> success r \<longrightarrow> fromCache r = None)
        \<and> (\<forall>rows'. pool w (executeCalls w) query = Rows rows'
              \<longrightarrow> success r \<and> data r = Some (RowArray rows') \<and> fromCache r = Some False))"
proof (intro conjI impI; (elim conjE)?)
  assume "executeSqlQuery query True w0 = (r0, w)" "success r0" "fromCache r0 = Some False"
    "data r0 = Some (RowArray rows)" "rows \<noteq> []" "length rows < 1000"
  then show "map_get (queryCache w) (generateCacheKey query) =
          Some \<lparr>result = rows,
                timestamp = clock w0 (clockReads w0
                  + (if map_get (queryCache w0) (generateCacheKey query) = None then 2 else 3))\<rparr>"
    by (rule executeSqlQuery_inserts)
next
  assume e: "map_get (queryCache w) (generateCacheKey query) = Some entry"
    and run: "executeSqlQuery query True w = (r, w')"
    and fresh: "clock w (Suc (clockReads w)) - timestamp entry < cacheTimeout"
  from executeSqlQuery_hit [OF e fresh] run
  have r: "r = \<lparr>success = True, data = Some (RowArray (result entry)),
             executionTime = clock w (Suc (Suc (clockReads w))) - clock w (clockReads w),
             fromCache = Some True, rowCount = None, error = None, errorCode = None\<rparr>"
    and w': "w' = (countQuery (w\<lparr>clockReads := Suc (clockReads w)\<rparr>))
              \<lparr>clockReads := Suc (Suc (Suc (clockReads w))),
               metrics := (metrics (countQuery w))
                 \<lparr>cacheHits := Suc (cacheHits (metrics w))\<rparr>\<rparr>"
    by simp_all
  show "success r" "data r = Some (RowArray (result entry))" "fromCache r = Some True"
    by (simp_all add: r)
  show "cacheHits (metrics w') = Suc (cacheHits (metrics w))"
    "executeCalls w' = executeCalls w" "trace w' = trace w"
    by (simp_all add: w')
next
  assume e: "map_get (queryCache w) (generateCacheKey query) = Some entry"
    and run: "executeSqlQuery query True w = (r, w')"
    and old: "cacheTimeout \<le> clock w (Suc (clockReads w)) - timestamp entry"
  let ?w3 = "(countQuery (w\<lparr>clockReads := Suc (clockReads w)\<rparr>))
                \<lparr>clockReads := Suc (Suc (clockReads w)),
                 queryCache := map_delete (queryCache w) (generateCacheKey query)\<rparr>"
  from old have "\<not> clock w (Suc (clockReads w)) - timestamp entry < cacheTimeout"
    by simp
  from executeSqlQuery_expired [OF e this] run
  have run3: "executeAndRecord query (generateCacheKey query) True (clock w (clockReads w)) ?w3
      = (r, w')"
    by simp
  note eff = executeAndRecord_effects [OF run3]
  from eff(1) show "executeCalls w < executeCalls w'"
    by simp
  from eff(2) show "\<exists>es. trace w' = trace w @ Execute query # es"
    by simp
  from eff(3) show "cacheHits (metrics w') = cacheHits (metrics w)"
    by simp
  from eff(4) show "fromCache r \<noteq> Some True" .
  from eff(5) show "fromCache r = Some False" if "success r"
    using that by simp
  show "fromCache r = None" if "\<not> success r"
    using executeAndRecord_failure
      [of query "generateCacheKey query" True "clock w (clockReads w)" ?w3] run3 that
    by simp
  show "\<forall>rows'. pool w (executeCalls w) query = Rows rows'
              \<longrightarrow> success r \<and> data r = Some (RowArray rows') \<and> fromCache r = Some False"
  proof (intro allI impI)
    fix rows'
    assume "pool w (executeCalls w) query = Rows rows'"
    then have "pool ?w3 (executeCalls ?w3) query = Rows rows'"
      by simp
    from executeAndRecord_first_attempt_rows [OF this, of "generateCacheKey query" True
        "clock w (clockReads w)"] run3
    show "success r \<and> data r = Some (RowArray rows') \<and> fromCache r = Some False"
      by simp
  qed
qed

lemma freshAgent_first_fetch:
  "fst (executeSqlQuery companyQuery1 True freshAgent) =
     \<lparr>success = True, data = Some (RowArray [''Acme'']), executionTime = 1000, fromCache = Some False,
      rowCount = Some 1, error = None, errorCode = None\<rparr>"
  by code_simp

lemma slowAgent_first_fetch:
  "fst (executeSqlQuery companyQuery1 True slowAgent) =
     \<lparr>success = True, data = Some (RowArray [''Acme'']), executionTime = 400000, fromCache = Some False,
      rowCount = Some 1, error = None, errorCode = None\<rparr>"
  by code_simp

theorem cache_fetch_within_ttl_and_after_expiry_witness:
  "success (fst (executeSqlQuery companyQuery1 True freshAgent))
   \<and> fromCache (fst (executeSqlQuery companyQuery1 True freshAgent)) = Some False
   \<and> data (fst (executeSqlQuery companyQuery1 True freshAgent)) = Some (RowArray [''Acme''])
   \<and> map_get (queryCache agentAfterFetch) (generateCacheKey companyQuery1) =
       Some \<lparr>result = [''Acme''], timestamp = 2000\<rparr>
   \<and> clock agentAfterFetch (Suc (clockReads agentAfterFetch)) - 2000 < cacheTimeout
   \<and> data (fst (executeSqlQuery companyQuery1 True agentAfterFetch)) = Some (RowArray [''Acme''])
   \<and> fromCache (fst (executeSqlQuery companyQuery1 True agentAfterFetch)) = Some True
   \<and> cacheHits (metrics (snd (executeSqlQuery companyQuery1 True agentAfterFetch))) =
       Suc (cacheHits (metrics agentAfterFetch))
   \<and> executeCalls (snd (executeSqlQuery companyQuery1 True agentAfterFetch)) =
       executeCalls agentAfterFetch
   \<and> map_get (queryCache slowAgentAfterFetch) (generateCacheKey companyQuery1) =
       Some \<lparr>result = [''Acme''], timestamp = 800000\<rparr>
   \<and> cacheTimeout \<le> clock slowAgentAfterFetch (Suc (clockReads slowAgentAfterFetch)) - 800000
   \<and> executeCalls slowAgentAfterFetch <
       executeCalls (snd (executeSqlQuery companyQuery1 True slowAgentAfterFetch))
   \<and> fromCache (fst (executeSqlQuery companyQuery1 True slowAgentAfterFetch)) = Some False"
proof -
  let ?r0 = "fst (executeSqlQuery companyQuery1 True freshAgent)"
  let ?r1 = "fst (executeSqlQuery companyQuery1 True agentAfterFetch)"
  let ?w1 = "snd (executeSqlQuery companyQuery1 True agentAfterFetch)"
  let ?s0 = "fst (executeSqlQuery companyQuery1 True slowAgent)"
  let ?s1 = "fst (executeSqlQuery companyQuery1 True slowAgentAfterFetch)"
  let ?v1 = "snd (executeSqlQuery companyQuery1 True slowAgentAfterFetch)"
  have run0: "executeSqlQuery companyQuery1 True freshAgent = (?r0, agentAfterFetch)"
    by (simp add: agentAfterFetch_def)
  have r0: "success ?r0" "fromCache ?r0 = Some False" "data ?r0 = Some (RowArray [''Acme''])"
    by (simp_all add: freshAgent_first_fetch)
  have absent0: "map_get (queryCache freshAgent) (generateCacheKey companyQuery1) = None"
    by (simp add: freshAgent_def newAgent_def map_get_def)
  have stamp0: "clock freshAgent (clockReads freshAgent + 2) = 2000"
    by (simp add: freshAgent_def newAgent_def tickingClock_def)
  from cache_fetch_within_ttl_and_after_expiry
    [of companyQuery1 freshAgent ?r0 agentAfterFetch "[''Acme'']", THEN conjunct1]
    run0 r0 absent0 stamp0
  have e1: "map_get (queryCache agentAfterFetch) (generateCacheKey companyQuery1) =
      Some \<lparr>result = [''Acme''], timestamp = 2000\<rparr>"
    by simp
  have fresh1: "clock agentAfterFetch (Suc (clockReads agentAfterFetch)) - 2000 < cacheTimeout"
    by code_simp
  have run1: "executeSqlQuery companyQuery1 True agentAfterFetch = (?r1, ?w1)"
    by simp
  from cache_fetch_within_ttl_and_after_expiry
    [of companyQuery1 _ _ agentAfterFetch _ "\<lparr>result = [''Acme''], timestamp = 2000\<rparr>" ?r1 ?w1,
     THEN conjunct2, THEN conjunct1]
    e1 run1 fresh1
  have hit: "data ?r1 = Some (RowArray [''Acme''])" "fromCache ?r1 = Some True"
    "cacheHits (metrics ?w1) = Suc (cacheHits (metrics agentAfterFetch))"
    "executeCalls ?w1 = executeCalls agentAfterFetch"
    by simp_all
  have runs0: "executeSqlQuery companyQuery1 True slowAgent = (?s0, slowAgentAfterFetch)"
    by (simp add: slowAgentAfterFetch_def)
  have s0: "success ?s0" "fromCache ?s0 = Some False" "data ?s0 = Some (RowArray [''Acme''])"
    by (simp_all add: slowAgent_first_fetch)
  have absents: "map_get (queryCache slowAgent) (generateCacheKey companyQuery1) = None"
    by (simp add: slowAgent_def newAgent_def map_get_def)
  have stamps: "clock slowAgent (clockReads slowAgent + 2) = 800000"
    by (simp add: slowAgent_def newAgent_def slowClock_def)
  from cache_fetch_within_ttl_and_after_expiry
    [of companyQuery1 slowAgent ?s0 slowAgentAfterFetch "[''Acme'']", THEN conjunct1]
    runs0 s0 absents stamps
  have e2: "map_get (queryCache slowAgentAfterFetch) (generateCacheKey companyQuery1) =
      Some \<lparr>result = [''Acme''], timestamp = 800000\<rparr>"
    by simp
  have old2: "cacheTimeout \<le>
      clock slowAgentAfterFetch (Suc (clockReads slowAgentAfterFetch)) - 800000"
    by code_simp
  have answers: "pool slowAgentAfterFetch (executeCalls slowAgentAfterFetch) companyQuery1 =
      Rows [''Acme'']"
    by code_simp
  have run2: "executeSqlQuery companyQuery1 True slowAgentAfterFetch = (?s1, ?v1)"
    by simp
  from cache_fetch_within_ttl_and_after_expiry
    [of companyQuery1 _ _ slowAgentAfterFetch _ "\<lparr>result = [''Acme''], timestamp = 800000\<rparr>"
        ?s1 ?v1, THEN conjunct2, THEN conjunct2]
    e2 run2 old2 answers
  have expired: "executeCalls slowAgentAfterFetch < executeCalls ?v1" "fromCache ?s1 = Some False"
    by simp_all
  from r0 e1 fresh1 hit e2 old2 expired show ?thesis
    by simp
qed

text \<open>
  C6. Every call of \<open>executeSqlQuery\<close> keeps the cache at no more than 100 entries
  with distinct keys; so after any sequence of calls on a freshly constructed agent the
  cache holds at most 100 entries. When the cache holds 100 entries, none under the
  statement's key, and a fetch with caching on returns between 1 and 999 rows, the
  cache afterwards is the old one without its first (oldest-inserted) entry and with the
  new entry last. A cache hit leaves the cache, and so the order of eviction, as it was:
  eviction follows insertion, not use.
\<close>

theorem cache_holds_at_most_100_entries_oldest_evicted:
  "(cacheWellFormed (queryCache w)
      \<longrightarrow> cacheWellFormed (queryCache (snd (executeSqlQuery query useCache w))))
   \<and> length (queryCache (executeSqlQueries calls (newAgent schemas clk db endFails model))) \<le> 100
   \<and> (cacheWellFormed (queryCache w) \<and> length (queryCache w) = 100
      \<and> map_get (queryCache w) (generateCacheKey query) = None
      \<and> executeSqlQuery query True w = (r, w')
      \<and> success r \<and> data r = Some (RowArray rows) \<and> rows \<noteq> [] \<and> length rows < 1000
    \<longrightarrow> queryCache w' =
          tl (queryCache w)
            @ [(generateCacheKey query,
                \<lparr>result = rows, timestamp = clock w (Suc (Suc (clockReads w)))\<rparr>)])
   \<and> (map_get (queryCache w) (generateCacheKey query) = Some entry
      \<and> clock w (Suc (clockReads w)) - timestamp entry < cacheTimeout
    \<longrightarrow> queryCache (snd (executeSqlQuery query True w)) = queryCache w)"
proof (intro conjI impI; (elim conjE)?)
  assume "map_get (queryCache w) (generateCacheKey query) = Some entry"
    "clock w (Suc (clockReads w)) - timestamp entry < cacheTimeout"
  from executeSqlQuery_hit [OF this] show "queryCache (snd (executeSqlQuery query True w)) = queryCache w"
    by simp
next
  assume "cacheWellFormed (queryCache w)"
  then show "cacheWellFormed (queryCache (snd (executeSqlQuery query useCache w)))"
    by (rule executeSqlQuery_wellFormed)
next
  from executeSqlQueries_wellFormed [OF newAgent_wellFormed]
  show "length (queryCache (executeSqlQueries calls (newAgent schemas clk db endFails model)))
      \<le> 100"
    by (simp add: cacheWellFormed_def)
next
  assume wf: "cacheWellFormed (queryCache w)" and full: "length (queryCache w) = 100"
    and absent: "map_get (queryCache w) (generateCacheKey query) = None"
    and run: "executeSqlQuery query True w = (r, w')"
    and ok: "success r" and d: "data r = Some (RowArray rows)"
    and rows: "rows \<noteq> []" "length rows < 1000"
  let ?s = "countQuery (w\<lparr>clockReads := Suc (clockReads w)\<rparr>)"
  from absent have a: "True \<longrightarrow> map_get (queryCache w) (generateCacheKey query) = None"
    by simp
  from executeSqlQuery_absent [OF a] run
  have run3: "executeAndRecord query (generateCacheKey query) True (clock w (clockReads w)) ?s
      = (r, w')"
    by simp
  have a3: "True \<longrightarrow> map_get (queryCache ?s) (generateCacheKey query) = None"
    using absent by simp
  from executeAndRecord_cache(2) [OF run3 a3 TrueI ok d rows] wf full
  show "queryCache w' =
          tl (queryCache w)
            @ [(generateCacheKey query,
                \<lparr>result = rows, timestamp = clock w (Suc (Suc (clockReads w)))\<rparr>)]"
    by simp
qed

lemma fullCache_wellFormed: "cacheWellFormed fullCache \<and> length fullCache = 100"
proof -
  have "inj_on (\<lambda>n. replicate (Suc n) (CHR ''k'')) (set [0..<100])"
    by (rule inj_onI) (metis length_replicate nat.inject)
  then have "distinct (map fst fullCache)"
    by (simp add: fullCache_def comp_def distinct_map)
  then show ?thesis
    by (simp add: cacheWellFormed_def fullCache_def)
qed

lemma companyQuery1_key:
  "generateCacheKey companyQuery1 = ''U0VMRUNUIGNvbXBhbnlOYW1lIEZST00gY29tcGFueSBXSEVSRS''"
  by code_simp

lemma fullCache_misses_companyQuery1: "map_get fullCache (generateCacheKey companyQuery1) = None"
proof -
  have "hd k = CHR ''k''" if "k \<in> fst ` set fullCache" for k
    using that by (auto simp: fullCache_def)
  moreover have "hd (generateCacheKey companyQuery1) \<noteq> CHR ''k''"
    by (simp add: companyQuery1_key)
  ultimately show ?thesis
    unfolding map_get_None_iff by blast
qed

lemma agentAfterFetch_cached:
  "map_get (queryCache agentAfterFetch) (generateCacheKey companyQuery1) =
     Some \<lparr>result = [''Acme''], timestamp = 2000\<rparr>
   \<and> clock agentAfterFetch (Suc (clockReads agentAfterFetch)) - 2000 < cacheTimeout"
  by code_simp

theorem cache_holds_at_most_100_entries_oldest_evicted_witness:
  "cacheWellFormed (queryCache fullCacheAgent) \<and> length (queryCache fullCacheAgent) = 100
   \<and> map_get (queryCache fullCacheAgent) (generateCacheKey companyQuery1) = None
   \<and> success (fst (executeSqlQuery companyQuery1 True fullCacheAgent))
   \<and> data (fst (executeSqlQuery companyQuery1 True fullCacheAgent)) = Some (RowArray [''Acme''])
   \<and> queryCache (snd (executeSqlQuery companyQuery1 True fullCacheAgent)) =
       tl fullCache
         @ [(generateCacheKey companyQuery1, \<lparr>result = [''Acme''], timestamp = 2000\<rparr>)]
   \<and> cacheWellFormed (queryCache (snd (executeSqlQuery companyQuery1 True fullCacheAgent)))
   \<and> map_get (queryCache agentAfterFetch) (generateCacheKey companyQuery1) =
       Some \<lparr>result = [''Acme''], timestamp = 2000\<rparr>
   \<and> clock agentAfterFetch (Suc (clockReads agentAfterFetch)) - 2000 < cacheTimeout
   \<and> queryCache (snd (executeSqlQuery companyQuery1 True agentAfterFetch)) =
       queryCache agentAfterFetch"
proof -
  let ?r = "fst (executeSqlQuery companyQuery1 True fullCacheAgent)"
  let ?w' = "snd (executeSqlQuery companyQuery1 True fullCacheAgent)"
  let ?s = "countQuery (fullCacheAgent\<lparr>clockReads := Suc (clockReads fullCacheAgent)\<rparr>)"
  have c: "queryCache fullCacheAgent = fullCache"
    by (simp add: fullCacheAgent_def)
  have wf: "cacheWellFormed (queryCache fullCacheAgent)" "length (queryCache fullCacheAgent) = 100"
    using fullCache_wellFormed by (simp_all add: c)
  have absent: "map_get (queryCache fullCacheAgent) (generateCacheKey companyQuery1) = None"
    by (simp add: c fullCache_misses_companyQuery1)
  have "pool ?s (executeCalls ?s) companyQuery1 = Rows [''Acme'']"
    by (simp add: fullCacheAgent_def freshAgent_def newAgent_def companyStore_def
        companyQuery1_def)
  from executeAndRecord_first_attempt_rows [OF this]
    executeSqlQuery_absent [of True fullCacheAgent companyQuery1] absent
  have r: "success ?r" "data ?r = Some (RowArray [''Acme''])"
    by simp_all
  have stamp: "clock fullCacheAgent (Suc (Suc (clockReads fullCacheAgent))) = 2000"
    by (simp add: fullCacheAgent_def freshAgent_def newAgent_def tickingClock_def)
  have run: "executeSqlQuery companyQuery1 True fullCacheAgent = (?r, ?w')"
    by simp
  from cache_holds_at_most_100_entries_oldest_evicted
    [of fullCacheAgent companyQuery1 True _ _ _ _ _ _ ?r ?w' "[''Acme'']",
     THEN conjunct2, THEN conjunct2]
    wf absent run r stamp c
  have evicted: "queryCache ?w' =
      tl fullCache @ [(generateCacheKey companyQuery1, \<lparr>result = [''Acme''], timestamp = 2000\<rparr>)]"
    by simp
  from cache_holds_at_most_100_entries_oldest_evicted
    [of fullCacheAgent companyQuery1 True, THEN conjunct1] wf
  have kept: "cacheWellFormed (queryCache ?w')"
    by simp
  from cache_holds_at_most_100_entries_oldest_evicted
    [where w = agentAfterFetch and query = companyQuery1
       and entry = "\<lparr>result = [''Acme''], timestamp = 2000\<rparr>",
     THEN conjunct2, THEN conjunct2, THEN conjunct2]
    agentAfterFetch_cached
  have unchanged: "queryCache (snd (executeSqlQuery companyQuery1 True agentAfterFetch)) =
      queryCache agentAfterFetch"
    by simp
  from wf absent r evicted kept unchanged agentAfterFetch_cached show ?thesis
    by simp
qed

section \<open>Retry with backoff\<close>

text \<open>
  C2. When the first two attempts fail with a connection reset and the third returns
  rows, \<open>executeQuery\<close> returns those rows and throws nothing, and exactly two waits
  are observed. The waits are 2000 ms and 4000 ms, not 1000 ms and 2000 ms:
  \<open>retryCount\<close> is incremented before \<open>Math.pow(2, retryCount) * 1000\<close> is computed.
  Between the second wait and the third attempt the pool is ended and re-created.
\<close>

theorem executeQuery_two_resets_then_rows_waits_2s_4s:
  assumes "pool w (executeCalls w) sql = Fails e1" and "err_code e1 = Some ''ECONNRESET''"
    and "pool w (Suc (executeCalls w)) sql = Fails e2" and "err_code e2 = Some ''ECONNRESET''"
    and "pool w (Suc (Suc (executeCalls w))) sql = Rows rows"
  shows "fst (executeQuery sql w) = Inr (Some (RowArray rows))
    \<and> trace (snd (executeQuery sql w)) =
        trace w @ [Execute sql, Delay 2000, Execute sql, Delay 4000]
          @ (if poolEndFails w then [PoolEnd] else [PoolEnd, InitializeDatabase])
          @ [Execute sql]
    \<and> [e \<leftarrow> trace (snd (executeQuery sql w)). \<exists>ms. e = Delay ms] =
        [e \<leftarrow> trace w. \<exists>ms. e = Delay ms] @ [Delay 2000, Delay 4000]"
proof -
  from assms have c: "isConnectionError e1" "isConnectionError e2"
    by (simp_all add: isConnectionError_def)
  from executeQuery_two_failures_then_rows [OF assms(1) c(1) assms(3) c(2) assms(5)]
  show ?thesis
    by simp
qed

theorem executeQuery_two_resets_then_rows_waits_2s_4s_witness:
  "pool (newAgent [] tickingClock resetsTwiceThenRows False answeringModel) 0 ''SELECT 1 as test''
     = Fails connectionReset
   \<and> err_code connectionReset = Some ''ECONNRESET''
   \<and> pool (newAgent [] tickingClock resetsTwiceThenRows False answeringModel) 2 ''SELECT 1 as test''
     = Rows [''1'']
   \<and> fst (executeQuery ''SELECT 1 as test''
            (newAgent [] tickingClock resetsTwiceThenRows False answeringModel)) =
       Inr (Some (RowArray [''1'']))
   \<and> trace (snd (executeQuery ''SELECT 1 as test''
                   (newAgent [] tickingClock resetsTwiceThenRows False answeringModel))) =
       [Execute ''SELECT 1 as test'', Delay 2000, Execute ''SELECT 1 as test'', Delay 4000,
        PoolEnd, InitializeDatabase, Execute ''SELECT 1 as test'']"
  using executeQuery_two_resets_then_rows_waits_2s_4s
    [of "newAgent [] tickingClock resetsTwiceThenRows False answeringModel" "''SELECT 1 as test''"
        connectionReset connectionReset "[''1'']"]
  by (simp add: newAgent_def resetsTwiceThenRows_def connectionReset_def)

section \<open>Query synthesis under rate limiting\<close>

lemma generateContent_simps [simp]:
  "fst (generateContent w) = llm w (llmCalls w)"
  "llmCalls (snd (generateContent w)) = Suc (llmCalls w)"
  "trace (snd (generateContent w)) = trace w @ [GenerateContent]"
  "tableSchemas (snd (generateContent w)) = tableSchemas w"
  "queryCache (snd (generateContent w)) = queryCache w"
  "executeCalls (snd (generateContent w)) = executeCalls w"
  by (simp_all add: generateContent_def)

text \<open>No scope of the \<open>catch\<close> block at line 542 binds \<open>relevantTables\<close>.\<close>

lemma relevantTables_unbound:
  "resolveIdentifier (catchScope question tableNames schemaInfo err) ''relevantTables'' =
     Inl (JsError ''ReferenceError'' ''relevantTables is not defined'' None None)"
  by (simp add: resolveIdentifier_def catchScope_def)

text \<open>
  What the fallback would produce for the first candidate table when it is called:
  the count template for a "how many"/"count" question, the five-row template
  when no phrase matches.
\<close>

lemma generateFallbackQuery_count:
  assumes "js_includes (toLowerCase js question) ''how many'' \<or> js_includes (toLowerCase js question) ''count''"
    and "\<not> (js_includes (toLowerCase js question) ''summary''
             \<and> ''master_project_ai_summary'' \<in> set relevantTables)"
  shows "generateFallbackQuery js question relevantTables =
           ''SELECT COUNT(*) as count FROM '' @ firstTableOrCompany relevantTables"
  using assms by (auto simp: generateFallbackQuery_def Let_def)

lemma generateFallbackQuery_default:
  assumes "\<not> js_includes (toLowerCase js question) ''summary''"
    and "\<not> js_includes (toLowerCase js question) ''how many''"
    and "\<not> js_includes (toLowerCase js question) ''count''"
    and "\<not> js_includes (toLowerCase js question) ''list''"
    and "\<not> js_includes (toLowerCase js question) ''show''"
  shows "generateFallbackQuery js question relevantTables =
           ''SELECT * FROM '' @ firstTableOrCompany relevantTables @ '' LIMIT 5''"
  using assms by (simp add: generateFallbackQuery_def Let_def)

text \<open>
  C3. When the model call fails with status 429, \<open>generateSqlQuery\<close> does not return
  a template query: evaluating the argument \<open>relevantTables\<close> of the fallback call
  throws a \<open>ReferenceError\<close>, for every question and every list of candidate tables, and
  the model is called once. For a model failure with any other status it throws the
  error \<open>Failed to generate SQL query\<close>.
\<close>

theorem generateSqlQuery_rate_limited_throws_ReferenceError:
  "(llm w (llmCalls w) = LlmFails err \<and> err_status err = Some 429
    \<longrightarrow> fst (generateSqlQuery js cleanQuery question tableNames schemaInfo w) =
          Inl (JsError ''ReferenceError'' ''relevantTables is not defined'' None None)
        \<and> llmCalls (snd (generateSqlQuery js cleanQuery question tableNames schemaInfo w)) =
            Suc (llmCalls w))
   \<and> (llm w (llmCalls w) = LlmFails err \<and> err_status err \<noteq> Some 429
    \<longrightarrow> fst (generateSqlQuery js cleanQuery question tableNames schemaInfo w) =
          Inl (JsError ''Error'' ''Failed to generate SQL query'' None None))"
  by (simp add: generateSqlQuery_def generateContent_def relevantTables_unbound)

theorem generateSqlQuery_rate_limited_throws_ReferenceError_witness:
  "llm (newAgent [''company''] tickingClock companyStore False rateLimitedModel) 0 =
     LlmFails (JsError ''Error'' ''429 Too Many Requests'' None (Some 429))
   \<and> fst (generateSqlQuery asciiBuiltins id ''How many companies do we have?'' [''company''] ''''
            (newAgent [''company''] tickingClock companyStore False rateLimitedModel)) =
       Inl (JsError ''ReferenceError'' ''relevantTables is not defined'' None None)
   \<and> generateFallbackQuery asciiBuiltins ''How many companies do we have?'' [''company''] =
       ''SELECT COUNT(*) as count FROM company''"
proof -
  let ?w = "newAgent [''company''] tickingClock companyStore False rateLimitedModel"
  let ?e = "JsError ''Error'' ''429 Too Many Requests'' None (Some 429)"
  have a: "llm ?w (llmCalls ?w) = LlmFails ?e" "llm ?w 0 = LlmFails ?e"
    by (simp_all add: newAgent_def rateLimitedModel_def)
  have b: "err_status ?e = Some 429"
    by simp
  have c: "generateFallbackQuery asciiBuiltins ''How many companies do we have?'' [''company''] =
       ''SELECT COUNT(*) as count FROM company''"
    by code_simp
  from generateSqlQuery_rate_limited_throws_ReferenceError
    [of ?w ?e asciiBuiltins id "''How many companies do we have?''" "[''company'']" "''''",
     THEN conjunct1]
    a b
  have "fst (generateSqlQuery asciiBuiltins id ''How many companies do we have?'' [''company''] '''' ?w) =
       Inl (JsError ''ReferenceError'' ''relevantTables is not defined'' None None)"
    by blast
  with a c show ?thesis
    by blast
qed

section \<open>Category selection\<close>

lemma keywordScore_foldl:
  "foldl (\<lambda>score keyword.
            if js_includes questionLower keyword then score + length keyword else score) a kws
     = a + sum_list (map length (filter (js_includes questionLower) kws))"
  by (induction kws arbitrary: a) auto

text \<open>
  The score of a category is the total length of its keywords that occur in the
  lowercased question.
\<close>

lemma keywordScore_sum:
  "keywordScore questionLower kws =
     sum_list (map length (filter (js_includes questionLower) kws))"
  by (simp add: keywordScore_def keywordScore_foldl)

text \<open>One more round of the scoring loop.\<close>

lemma bestMatch_snoc:
  "bestMatch ql (cats @ [(name, d)]) =
     (if keywordScore ql (cat_keywords d) > snd (bestMatch ql cats)
      then (Some name, keywordScore ql (cat_keywords d)) else bestMatch ql cats)"
  by (simp add: bestMatch_def Let_def)

lemma bestMatch_upper:
  "(n, d) \<in> set cats \<Longrightarrow> keywordScore ql (cat_keywords d) \<le> snd (bestMatch ql cats)"
proof (induction cats rule: rev_induct)
  case Nil
  then show ?case by simp
next
  case (snoc c cats)
  obtain name d' where c: "c = (name, d')"
    by (cases c)
  from snoc show ?case
    unfolding c bestMatch_snoc by (auto simp: not_less intro: order_trans less_imp_le)
qed

text \<open>
  The winner of the scoring loop: a category with a positive score, strictly greater
  than the score of every category before it and at least the score of every category
  after it; there is no winner exactly when every category scores zero.
\<close>

lemma bestMatch_winner:
  "bestMatch ql cats = (Some c, s) \<Longrightarrow>
     \<exists>before d after. cats = before @ (c, d) # after
       \<and> s = keywordScore ql (cat_keywords d) \<and> 0 < s
       \<and> list_all (\<lambda>(n, d'). keywordScore ql (cat_keywords d') < s) before
       \<and> list_all (\<lambda>(n, d'). keywordScore ql (cat_keywords d') \<le> s) after"
proof (induction cats arbitrary: c s rule: rev_induct)
  case Nil
  then show ?case by (simp add: bestMatch_def)
next
  case (snoc x cats)
  obtain name d where x: "x = (name, d)"
    by (cases x)
  show ?case
  proof (cases "keywordScore ql (cat_keywords d) > snd (bestMatch ql cats)")
    case True
    with snoc.prems have cs: "c = name" "s = keywordScore ql (cat_keywords d)"
      unfolding x bestMatch_snoc by simp_all
    have "list_all (\<lambda>(n, d'). keywordScore ql (cat_keywords d') < s) cats"
      unfolding list_all_iff
    proof (intro ballI, clarify)
      fix n d' assume "(n, d') \<in> set cats"
      from bestMatch_upper [OF this, of ql] True cs
      show "keywordScore ql (cat_keywords d') < s" by simp
    qed
    moreover from True cs have "0 < s" by simp
    ultimately show ?thesis
      using cs x by (intro exI [of _ cats] exI [of _ d] exI [of _ "[]"]) simp
  next
    case False
    with snoc.prems have prev: "bestMatch ql cats = (Some c, s)"
      unfolding x bestMatch_snoc by simp
    from snoc.IH [OF prev] obtain before d0 after where
      w: "cats = before @ (c, d0) # after" "s = keywordScore ql (cat_keywords d0)" "0 < s"
        "list_all (\<lambda>(n, d'). keywordScore ql (cat_keywords d') < s) before"
        "list_all (\<lambda>(n, d'). keywordScore ql (cat_keywords d') \<le> s) after"
      by blast
    from False prev have "keywordScore ql (cat_keywords d) \<le> s"
      by simp
    with w x show ?thesis
      by (intro exI [of _ before] exI [of _ d0] exI [of _ "after @ [(name, d)]"]) simp
  qed
qed

lemma bestMatch_no_winner:
  "fst (bestMatch ql cats) = None \<longleftrightarrow> snd (bestMatch ql cats) = 0"
proof (induction cats rule: rev_induct)
  case Nil
  then show ?case by (simp add: bestMatch_def)
next
  case (snoc x cats)
  obtain name d where x: "x = (name, d)"
    by (cases x)
  from snoc show ?case
    unfolding x bestMatch_snoc by auto
qed

lemma bestMatch_zero:
  "snd (bestMatch ql cats) = 0 \<longleftrightarrow>
     list_all (\<lambda>(n, d). keywordScore ql (cat_keywords d) = 0) cats"
proof (induction cats rule: rev_induct)
  case Nil
  then show ?case by (simp add: bestMatch_def)
next
  case (snoc x cats)
  obtain name d where x: "x = (name, d)"
    by (cases x)
  from snoc show ?case
    unfolding x bestMatch_snoc by auto
qed

text \<open>A positive best score: that category and its tables, with no model call.\<close>

lemma selectCategory_scored:
  assumes "bestMatch (toLowerCase js question) getCategoryMapping = (Some c, s)" and "0 < s"
  shows "selectCategory js question w =
           (\<lparr>cr_category = c, cr_tables = map_option cat_tables (map_of getCategoryMapping c)\<rparr>, w)"
  using assms by (simp add: selectCategory_def Let_def)

text \<open>
  Every category scoring zero: the model is called once. A reply that is a category
  name selects that category; a reply that is neither a category name nor a member of
  \<open>Object.prototype\<close>, and a failed call, give the General category with every loaded
  table.
\<close>

lemma selectCategory_unscored:
  assumes zero: "snd (bestMatch (toLowerCase js question) getCategoryMapping) = 0"
  shows "llmCalls (snd (selectCategory js question w)) = Suc (llmCalls w)"
    and "llm w (llmCalls w) = LlmText reply \<Longrightarrow> map_of getCategoryMapping (trim js reply) = Some d \<Longrightarrow>
           fst (selectCategory js question w) =
             \<lparr>cr_category = trim js reply, cr_tables = Some (cat_tables d)\<rparr>"
    and "llm w (llmCalls w) = LlmText reply \<Longrightarrow> map_of getCategoryMapping (trim js reply) = None \<Longrightarrow>
           trim js reply \<notin> set objectPrototypeProperties \<Longrightarrow>
           fst (selectCategory js question w) =
             \<lparr>cr_category = ''General'', cr_tables = Some (tableSchemas w)\<rparr>"
    and "llm w (llmCalls w) = LlmFails err \<Longrightarrow>
           fst (selectCategory js question w) =
             \<lparr>cr_category = ''General'', cr_tables = Some (tableSchemas w)\<rparr>"
proof -
  from zero bestMatch_no_winner [of "toLowerCase js question" getCategoryMapping]
  have none: "fst (bestMatch (toLowerCase js question) getCategoryMapping) = None"
    by simp
  show "llmCalls (snd (selectCategory js question w)) = Suc (llmCalls w)"
    using zero
    by (simp add: selectCategory_def Let_def generateContent_def
        split: llm_outcome.splits option.splits property_value.splits)
  show "fst (selectCategory js question w) =
             \<lparr>cr_category = trim js reply, cr_tables = Some (cat_tables d)\<rparr>"
    if "llm w (llmCalls w) = LlmText reply" "map_of getCategoryMapping (trim js reply) = Some d"
    using that zero
    by (simp add: selectCategory_def Let_def generateContent_def getProperty_def)
  show "fst (selectCategory js question w) =
             \<lparr>cr_category = ''General'', cr_tables = Some (tableSchemas w)\<rparr>"
    if "llm w (llmCalls w) = LlmText reply" "map_of getCategoryMapping (trim js reply) = None"
      "trim js reply \<notin> set objectPrototypeProperties"
    using that zero none
    by (simp add: selectCategory_def Let_def generateContent_def getProperty_def)
  show "fst (selectCategory js question w) =
             \<lparr>cr_category = ''General'', cr_tables = Some (tableSchemas w)\<rparr>"
    if "llm w (llmCalls w) = LlmFails err"
    using that zero none
    by (simp add: selectCategory_def Let_def generateContent_def)
qed

lemma prototype_names_are_no_categories:
  "list_all (\<lambda>name. map_of getCategoryMapping name = None) objectPrototypeProperties"
  by code_simp

text \<open>
  C7. When every category scores zero and the model's trimmed reply is the name of a
  member of \<open>Object.prototype\<close> (such as \<open>constructor\<close>, which is not a category
  name), \<open>selectCategory\<close> does not return the General category: it returns the reply
  as the category, with \<open>tables\<close> undefined.
\<close>

theorem selectCategory_inherited_property_is_not_General:
  assumes "snd (bestMatch (toLowerCase js question) getCategoryMapping) = 0"
    and "llm w (llmCalls w) = LlmText reply"
    and "trim js reply \<in> set objectPrototypeProperties"
  shows "map_of getCategoryMapping (trim js reply) = None
    \<and> fst (selectCategory js question w) = \<lparr>cr_category = trim js reply, cr_tables = None\<rparr>
    \<and> cr_category (fst (selectCategory js question w)) \<noteq> ''General''
    \<and> cr_tables (fst (selectCategory js question w)) \<noteq> Some (tableSchemas w)"
proof -
  from assms(3) prototype_names_are_no_categories
  have no: "map_of getCategoryMapping (trim js reply) = None"
    by (simp add: list_all_iff)
  from assms(3) have ne: "trim js reply \<noteq> ''General''"
    by (auto simp: objectPrototypeProperties_def)
  from assms no have "fst (selectCategory js question w) =
      \<lparr>cr_category = trim js reply, cr_tables = None\<rparr>"
    by (simp add: selectCategory_def Let_def generateContent_def getProperty_def)
  with no ne show ?thesis
    by simp
qed

lemma hello_there_scores_zero:
  "snd (bestMatch (toLowerCase asciiBuiltins ''hello there'') getCategoryMapping) = 0"
  by code_simp

theorem selectCategory_inherited_property_is_not_General_witness:
  "snd (bestMatch (toLowerCase asciiBuiltins ''hello there'') getCategoryMapping) = 0
   \<and> trim asciiBuiltins ''constructor'' \<in> set objectPrototypeProperties
   \<and> map_of getCategoryMapping ''constructor'' = None
   \<and> fst (selectCategory asciiBuiltins ''hello there''
            (newAgent [''company'', ''projects''] tickingClock companyStore False
               (\<lambda>n. LlmText ''constructor''))) =
       \<lparr>cr_category = ''constructor'', cr_tables = None\<rparr>"
proof -
  let ?w = "newAgent [''company'', ''projects''] tickingClock companyStore False
               (\<lambda>n. LlmText ''constructor'')"
  have t: "trim asciiBuiltins ''constructor'' = ''constructor''"
    by code_simp
  have a: "llm ?w (llmCalls ?w) = LlmText ''constructor''"
    by (simp add: newAgent_def)
  have b: "trim asciiBuiltins ''constructor'' \<in> set objectPrototypeProperties"
    unfolding t by (simp add: objectPrototypeProperties_def)
  from selectCategory_inherited_property_is_not_General [OF hello_there_scores_zero a b]
    hello_there_scores_zero b
  show ?thesis
    unfolding t by simp
qed

section \<open>Cache key collisions\<close>

lemma toBase64_append:
  "length xs mod 3 = 0 \<Longrightarrow> toBase64 (xs @ ys) = toBase64 xs @ toBase64 ys"
  by (induction xs rule: toBase64.induct) (simp_all add: Let_def)

lemma length_toBase64:
  "length xs mod 3 = 0 \<Longrightarrow> 3 * length (toBase64 xs) = 4 * length xs"
  by (induction xs rule: toBase64.induct) (simp_all add: Let_def)

lemma toBase64_take2: "take 2 (toBase64 s) = take 2 (toBase64 (take 2 s))"
  by (induction s rule: toBase64.induct) (simp_all add: Let_def)

lemma generateCacheKey_long:
  assumes "36 \<le> length s"
  shows "generateCacheKey s = toBase64 (take 36 s) @ take 2 (toBase64 (take 2 (drop 36 s)))"
proof -
  have len: "length (take 36 s) = 36"
    using assms by simp
  then have m: "length (take 36 s) mod 3 = 0"
    by simp
  have "toBase64 s = toBase64 (take 36 s @ drop 36 s)"
    by simp
  also have "\<dots> = toBase64 (take 36 s) @ toBase64 (drop 36 s)"
    by (rule toBase64_append [OF m])
  finally have "generateCacheKey s =
      take 50 (toBase64 (take 36 s) @ toBase64 (drop 36 s))"
    by (simp add: generateCacheKey_def)
  moreover have "length (toBase64 (take 36 s)) = 48"
    using length_toBase64 [OF m] len by simp
  ultimately have "generateCacheKey s = toBase64 (take 36 s) @ take 2 (toBase64 (drop 36 s))"
    by simp
  then show ?thesis
    using toBase64_take2 [of "drop 36 s"] by simp
qed

text \<open>The key is a function of the first 38 bytes of the statement.\<close>

lemma generateCacheKey_take38: "generateCacheKey s = generateCacheKey (take 38 s)"
proof (cases "38 \<le> length s")
  case False
  then show ?thesis by simp
next
  case True
  then have a: "36 \<le> length s" and b: "36 \<le> length (take 38 s)"
    by simp_all
  have "take 2 (drop 36 (take 38 s)) = take 2 (drop 36 s)"
    by (simp add: drop_take)
  then show ?thesis
    unfolding generateCacheKey_long [OF a] generateCacheKey_long [OF b] by simp
qed

lemma generateCacheKey_same_prefix:
  "take 38 q1 = take 38 q2 \<Longrightarrow> generateCacheKey q1 = generateCacheKey q2"
  using generateCacheKey_take38 [of q1] generateCacheKey_take38 [of q2] by simp

lemma company_queries_collide:
  "companyQuery1 \<noteq> companyQuery2 \<and> take 38 companyQuery1 = take 38 companyQuery2"
  by code_simp

lemma companyQuery2_answer:
  "pool agentAfterFetch (executeCalls agentAfterFetch) companyQuery2 = Rows [''Globex'']"
  by code_simp

text \<open>
  C9. The cache key is the first 50 characters of the base64 text of the statement,
  so two statements that agree on their first 38 bytes have the same key. There are two
  distinct statements, agreeing on their first 38 bytes, to which the store gives
  different rows, such that fetching the second right after the first, with caching on,
  returns the first one's rows flagged \<open>fromCache = true\<close> and sends nothing to the pool.
\<close>

theorem cache_key_collision_serves_other_rows:
  "generateCacheKey query = take 50 (toBase64 query)
   \<and> generateCacheKey query = generateCacheKey (take 38 query)
   \<and> (\<exists>q1 q2 w rows1 rows2.
        q1 \<noteq> q2 \<and> take 38 q1 = take 38 q2 \<and> generateCacheKey q1 = generateCacheKey q2
        \<and> data (fst (executeSqlQuery q1 True w)) = Some (RowArray rows1)
        \<and> fromCache (fst (executeSqlQuery q1 True w)) = Some False
        \<and> pool (snd (executeSqlQuery q1 True w)) (executeCalls (snd (executeSqlQuery q1 True w))) q2
            = Rows rows2
        \<and> rows1 \<noteq> rows2
        \<and> data (fst (executeSqlQuery q2 True (snd (executeSqlQuery q1 True w)))) = Some (RowArray rows1)
        \<and> fromCache (fst (executeSqlQuery q2 True (snd (executeSqlQuery q1 True w)))) = Some True
        \<and> executeCalls (snd (executeSqlQuery q2 True (snd (executeSqlQuery q1 True w)))) =
            executeCalls (snd (executeSqlQuery q1 True w)))"
proof (intro conjI)
  show "generateCacheKey query = take 50 (toBase64 query)"
    by (simp add: generateCacheKey_def)
  show "generateCacheKey query = generateCacheKey (take 38 query)"
    by (rule generateCacheKey_take38)
  let ?w1 = "snd (executeSqlQuery companyQuery1 True freshAgent)"
  have w1: "?w1 = agentAfterFetch"
    by (simp add: agentAfterFetch_def)
  from company_queries_collide
  have ne: "companyQuery1 \<noteq> companyQuery2" and pre: "take 38 companyQuery1 = take 38 companyQuery2"
    by simp_all
  from pre have key: "generateCacheKey companyQuery1 = generateCacheKey companyQuery2"
    by (rule generateCacheKey_same_prefix)
  from agentAfterFetch_cached key
  have e: "map_get (queryCache agentAfterFetch) (generateCacheKey companyQuery2) =
      Some \<lparr>result = [''Acme''], timestamp = 2000\<rparr>"
    and fresh: "clock agentAfterFetch (Suc (clockReads agentAfterFetch))
        - timestamp \<lparr>result = [''Acme''], timestamp = 2000\<rparr> < cacheTimeout"
    by simp_all
  note hit = executeSqlQuery_hit [OF e fresh]
  have "companyQuery1 \<noteq> companyQuery2 \<and> take 38 companyQuery1 = take 38 companyQuery2
        \<and> generateCacheKey companyQuery1 = generateCacheKey companyQuery2
        \<and> data (fst (executeSqlQuery companyQuery1 True freshAgent)) = Some (RowArray [''Acme''])
        \<and> fromCache (fst (executeSqlQuery companyQuery1 True freshAgent)) = Some False
        \<and> pool ?w1 (executeCalls ?w1) companyQuery2 = Rows [''Globex'']
        \<and> [''Acme''] \<noteq> [''Globex'']
        \<and> data (fst (executeSqlQuery companyQuery2 True ?w1)) = Some (RowArray [''Acme''])
        \<and> fromCache (fst (executeSqlQuery companyQuery2 True ?w1)) = Some True
        \<and> executeCalls (snd (executeSqlQuery companyQuery2 True ?w1)) = executeCalls ?w1"
    unfolding w1 using ne pre key companyQuery2_answer
    by (simp add: hit freshAgent_first_fetch)
  then show "\<exists>q1 q2 w rows1 rows2.
        q1 \<noteq> q2 \<and> take 38 q1 = take 38 q2 \<and> generateCacheKey q1 = generateCacheKey q2
        \<and> data (fst (executeSqlQuery q1 True w)) = Some (RowArray rows1)
        \<and> fromCache (fst (executeSqlQuery q1 True w)) = Some False
        \<and> pool (snd (executeSqlQuery q1 True w)) (executeCalls (snd (executeSqlQuery q1 True w))) q2
            = Rows rows2
        \<and> rows1 \<noteq> rows2
        \<and> data (fst (executeSqlQuery q2 True (snd (executeSqlQuery q1 True w)))) = Some (RowArray rows1)
        \<and> fromCache (fst (executeSqlQuery q2 True (snd (executeSqlQuery q1 True w)))) = Some True
        \<and> executeCalls (snd (executeSqlQuery q2 True (snd (executeSqlQuery q1 True w)))) =
            executeCalls (snd (executeSqlQuery q1 True w))"
    by blast
qed

section \<open>The question pipeline\<close>


text \<open>
  \<open>generateResponse\<close> answers a failed execution with the apology, answers rows that
  serialise with some text, and throws on a result header.
\<close>

lemma generateResponse_failure:
  "\<not> success r \<Longrightarrow> error r = Some m \<Longrightarrow>
     generateResponse js question q r w =
       (Inr (''I encountered an error while executing your query: '' @ m
          @ ''. Please try rephrasing your question or contact support if the issue persists.''),
        w)"
  by (simp add: generateResponse_def executionErrorResponse_def)

lemma generateResponse_rows:
  assumes "success r" and "data r = Some (RowArray rows)" and "serialises js rows"
  shows "\<exists>text. fst (generateResponse js question q r w) = Inr text"
proof (cases "rows = []")
  case True
  with assms show ?thesis
    by (simp add: generateResponse_def)
next
  case False
  with assms(3) obtain dataString where "stringify js (take 50 rows) = Inr dataString"
    by (auto simp: serialises_def split: sum.splits)
  with assms(1,2) False show ?thesis
    by (cases "generateContent w"; cases "fst (generateContent w)")
       (simp_all add: generateResponse_def Let_def)
qed

lemma generateResponse_header:
  assumes "success r" and "data r = Some ResultHeader"
  shows "generateResponse js question q r w =
           (Inl (JsError ''TypeError'' ''queryResult.data.slice is not a function'' None None), w)"
  using assms by (simp add: generateResponse_def)

text \<open>
  Once steps 1 to 5 have gone through and \<open>generateResponse\<close> has returned, the
  success object is built from step 6 and 7; when \<open>generateResponse\<close> throws, the
  failure object is.
\<close>

lemma processQuestion_executed:
  assumes "steps1to4 w = (Inr s, w1)" and "validateAndOptimizeQuery js (s_sqlQuery s) = Inr q"
    and "fst (generateResponse js question q (fst (executeSqlQuery q True w1))
                (snd (executeSqlQuery q True w1))) = Inr text"
  shows "pq_success (fst (processQuestion js steps1to4 question w))"
    and "pq_error (fst (processQuestion js steps1to4 question w)) = None"
    and "pq_query (fst (processQuestion js steps1to4 question w)) = Some q"
    and "pq_rowCount (fst (processQuestion js steps1to4 question w)) =
           Some (case rowCount (fst (executeSqlQuery q True w1)) of Some n \<Rightarrow> n | None \<Rightarrow> 0)"
    and "pq_fromCache (fst (processQuestion js steps1to4 question w)) =
           Some (case fromCache (fst (executeSqlQuery q True w1)) of Some b \<Rightarrow> b | None \<Rightarrow> False)"
    and "pq_response (fst (processQuestion js steps1to4 question w)) = text"
  using assms by (simp_all add: processQuestion_def Let_def split_beta)

lemma processQuestion_response_thrown:
  assumes "steps1to4 w = (Inr s, w1)" and "validateAndOptimizeQuery js (s_sqlQuery s) = Inr q"
    and "fst (generateResponse js question q (fst (executeSqlQuery q True w1))
                (snd (executeSqlQuery q True w1))) = Inl err"
  shows "fst (processQuestion js steps1to4 question w) = processingFailed question err"
  using assms by (simp add: processQuestion_def Let_def split_beta)

lemma queryRoute_processed:
  assumes "question \<noteq> []" and "trim js question \<noteq> []"
  shows "statusCode (fst (queryRoute js steps1to4 question False w)) =
           (if pq_success (fst (processQuestion js steps1to4 (trim js question) w)) then 200 else 400)"
    and "body_success (fst (queryRoute js steps1to4 question False w)) =
           pq_success (fst (processQuestion js steps1to4 (trim js question) w))"
    and "body_rowCount (fst (queryRoute js steps1to4 question False w)) =
           pq_rowCount (fst (processQuestion js steps1to4 (trim js question) w))"
    and "body_fromCache (fst (queryRoute js steps1to4 question False w)) =
           pq_fromCache (fst (processQuestion js steps1to4 (trim js question) w))"
    and "body_response (fst (queryRoute js steps1to4 question False w)) =
           Some (pq_response (fst (processQuestion js steps1to4 (trim js question) w)))"
    and "pq_success (fst (processQuestion js steps1to4 (trim js question) w)) \<Longrightarrow>
           body_error (fst (queryRoute js steps1to4 question False w)) = None"
  using assms
  by (simp_all add: queryRoute_def Let_def split_beta split: option.splits)

text \<open>
  The pipeline from step 5 on, when \<open>generateResponse\<close> returns for the result of the
  execution: \<open>processQuestion\<close> builds the success object, and the route answers 200
  and passes the row count and the cache flag on.
\<close>

lemma pipeline_answered:
  assumes steps: "steps1to4 w = (Inr s, w1)"
    and valid: "validateAndOptimizeQuery js (s_sqlQuery s) = Inr q"
    and resp: "\<forall>qn. \<exists>text. fst (generateResponse js qn q (fst (executeSqlQuery q True w1))
                (snd (executeSqlQuery q True w1))) = Inr text"
  shows "pq_success (fst (processQuestion js steps1to4 question w))"
    and "pq_error (fst (processQuestion js steps1to4 question w)) = None"
    and "pq_rowCount (fst (processQuestion js steps1to4 question w)) =
           Some (case rowCount (fst (executeSqlQuery q True w1)) of Some n \<Rightarrow> n | None \<Rightarrow> 0)"
    and "pq_fromCache (fst (processQuestion js steps1to4 question w)) =
           Some (case fromCache (fst (executeSqlQuery q True w1)) of Some b \<Rightarrow> b | None \<Rightarrow> False)"
    and "question \<noteq> [] \<Longrightarrow> trim js question \<noteq> [] \<Longrightarrow>
           statusCode (fst (queryRoute js steps1to4 question False w)) = 200
           \<and> body_success (fst (queryRoute js steps1to4 question False w))
           \<and> body_error (fst (queryRoute js steps1to4 question False w)) = None
           \<and> body_rowCount (fst (queryRoute js steps1to4 question False w)) =
               Some (case rowCount (fst (executeSqlQuery q True w1)) of Some n \<Rightarrow> n | None \<Rightarrow> 0)
           \<and> body_fromCache (fst (queryRoute js steps1to4 question False w)) =
               Some (case fromCache (fst (executeSqlQuery q True w1)) of Some b \<Rightarrow> b | None \<Rightarrow> False)"
proof -
  from resp obtain answer where answer:
    "fst (generateResponse js question q (fst (executeSqlQuery q True w1))
            (snd (executeSqlQuery q True w1))) = Inr answer"
    by blast
  note pq = processQuestion_executed
    [of steps1to4 w s w1 js q question answer, OF steps valid answer]
  show "pq_success (fst (processQuestion js steps1to4 question w))"
    by (rule pq(1))
  show "pq_error (fst (processQuestion js steps1to4 question w)) = None"
    by (rule pq(2))
  show "pq_rowCount (fst (processQuestion js steps1to4 question w)) =
           Some (case rowCount (fst (executeSqlQuery q True w1)) of Some n \<Rightarrow> n | None \<Rightarrow> 0)"
    by (rule pq(4))
  show "pq_fromCache (fst (processQuestion js steps1to4 question w)) =
           Some (case fromCache (fst (executeSqlQuery q True w1)) of Some b \<Rightarrow> b | None \<Rightarrow> False)"
    by (rule pq(5))
  show "statusCode (fst (queryRoute js steps1to4 question False w)) = 200
           \<and> body_success (fst (queryRoute js steps1to4 question False w))
           \<and> body_error (fst (queryRoute js steps1to4 question False w)) = None
           \<and> body_rowCount (fst (queryRoute js steps1to4 question False w)) =
               Some (case rowCount (fst (executeSqlQuery q True w1)) of Some n \<Rightarrow> n | None \<Rightarrow> 0)
           \<and> body_fromCache (fst (queryRoute js steps1to4 question False w)) =
               Some (case fromCache (fst (executeSqlQuery q True w1)) of Some b \<Rightarrow> b | None \<Rightarrow> False)"
    if ne: "question \<noteq> []" "trim js question \<noteq> []"
  proof -
    from resp obtain answer' where answer':
      "fst (generateResponse js (trim js question) q (fst (executeSqlQuery q True w1))
              (snd (executeSqlQuery q True w1))) = Inr answer'"
      by blast
    note pt = processQuestion_executed
      [of steps1to4 w s w1 js q "trim js question" answer', OF steps valid answer']
    note rt = queryRoute_processed [of question js steps1to4 w, OF ne]
    from pt(1) rt(1) have "statusCode (fst (queryRoute js steps1to4 question False w)) = 200"
      by simp
    moreover from pt(1) rt(2) have "body_success (fst (queryRoute js steps1to4 question False w))"
      by simp
    moreover from pt(1) rt(6)
    have "body_error (fst (queryRoute js steps1to4 question False w)) = None"
      by simp
    moreover from pt(4) rt(3)
    have "body_rowCount (fst (queryRoute js steps1to4 question False w)) =
        Some (case rowCount (fst (executeSqlQuery q True w1)) of Some n \<Rightarrow> n | None \<Rightarrow> 0)"
      by simp
    moreover from pt(5) rt(4)
    have "body_fromCache (fst (queryRoute js steps1to4 question False w)) =
        Some (case fromCache (fst (executeSqlQuery q True w1)) of Some b \<Rightarrow> b | None \<Rightarrow> False)"
      by simp
    ultimately show ?thesis
      by blast
  qed
qed

text \<open>
  With steps 1 to 4 chained as in the source: when a keyword selects the category (no
  model call there) and the model is rate-limited at query generation, the pipeline
  stops before execution and \<open>processQuestion\<close> reports the \<open>ReferenceError\<close>.
\<close>

lemma processQuestion_rate_limited:
  assumes best: "bestMatch (toLowerCase js question) getCategoryMapping = (Some c, sc)" "0 < sc"
    and sel: "selectTables question (map_option cat_tables (map_of getCategoryMapping c)) w
        = Inr selected"
    and lim: "llm w (llmCalls w) = LlmFails err" "err_status err = Some 429"
  shows "fst (processQuestion js (pipelineSteps js selectTables getSchemaInfo cleanQuery question)
                question w) =
           processingFailed question
             (JsError ''ReferenceError'' ''relevantTables is not defined'' None None)"
    and "executeCalls (snd (processQuestion js
           (pipelineSteps js selectTables getSchemaInfo cleanQuery question) question w)) =
           executeCalls w"
  using selectCategory_scored [OF best, of w] sel lim
  by (simp_all add: processQuestion_def pipelineSteps_def generateSqlQuery_def
      generateContent_def relevantTables_unbound)

text \<open>
  A statement that returns no rows passes the guard and is executed; the pool resolves
  with a result header, \<open>executeSqlQuery\<close> reports success, and \<open>generateResponse\<close>
  throws at line 703, so that \<open>processQuestion\<close> returns its failure object.
\<close>

lemma processQuestion_result_header:
  assumes steps: "steps1to4 w = (Inr s, w1)"
    and valid: "validateAndOptimizeQuery js (s_sqlQuery s) = Inr q"
    and ok: "success (fst (executeSqlQuery q True w1))"
    and header: "data (fst (executeSqlQuery q True w1)) = Some ResultHeader"
  shows "fst (processQuestion js steps1to4 question w) =
           processingFailed question
             (JsError ''TypeError'' ''queryResult.data.slice is not a function'' None None)"
  by (rule processQuestion_response_thrown [of steps1to4 w s w1 js q, OF steps valid])
     (simp add: generateResponse_header [OF ok header])

text \<open>
  C8. On the statement \<open>SET @total = 0\<close>, which the guard lets through, and a store
  that resolves it with a result header: the statement reaches the pool and
  \<open>executeSqlQuery\<close> reports success, yet \<open>processQuestion\<close> returns
  \<open>success = false\<close> with the error \<open>queryResult.data.slice is not a function\<close>, and
  the \<open>/query\<close> route answers 400.
\<close>

theorem set_statement_reaches_execution_and_fails_counterexample:
  "validateAndOptimizeQuery asciiBuiltins setStatement = Inr setStatement
   \<and> executeCalls headerAgent = 0
   \<and> executeCalls (snd (executeSqlQuery setStatement True headerAgent)) = 1
   \<and> success (fst (executeSqlQuery setStatement True headerAgent))
   \<and> \<not> pq_success (fst (processQuestion asciiBuiltins (synthesised setStatement)
                           ''Reset the total'' headerAgent))
   \<and> pq_error (fst (processQuestion asciiBuiltins (synthesised setStatement)
                      ''Reset the total'' headerAgent))
       = Some ''queryResult.data.slice is not a function''
   \<and> statusCode (fst (queryRoute asciiBuiltins (synthesised setStatement)
                        ''Reset the total'' False headerAgent)) = 400"
  by code_simp

text \<open>
  C8 (amended). Whenever steps 1 to 5 go through (the pipeline reaches query
  execution) and the execution failed, \<open>processQuestion\<close> returns \<open>success = true\<close>
  with no \<open>error\<close> field, \<open>rowCount = 0\<close> and \<open>fromCache = false\<close>, its response is the
  fixed apology around the execution's error message, and the \<open>/query\<close> route
  answers 200 with \<open>success = true\<close> and no \<open>error\<close> (for a question that is not empty
  after trimming, which is what the route lets through). The same success object and
  status 200 are returned when the execution yielded an array of rows that serialises.
\<close>

theorem processQuestion_success_despite_failed_execution:
  assumes "steps1to4 w = (Inr s, w1)" and "validateAndOptimizeQuery js (s_sqlQuery s) = Inr q"
  shows "(\<not> success (fst (executeSqlQuery q True w1)) \<longrightarrow>
          pq_success (fst (processQuestion js steps1to4 question w))
          \<and> pq_error (fst (processQuestion js steps1to4 question w)) = None
          \<and> pq_rowCount (fst (processQuestion js steps1to4 question w)) = Some 0
          \<and> pq_fromCache (fst (processQuestion js steps1to4 question w)) = Some False
          \<and> (\<exists>m. error (fst (executeSqlQuery q True w1)) = Some m
                \<and> pq_response (fst (processQuestion js steps1to4 question w)) =
                    ''I encountered an error while executing your query: '' @ m
                      @ ''. Please try rephrasing your question or contact support if the issue persists.'')
          \<and> (question \<noteq> [] \<and> trim js question \<noteq> [] \<longrightarrow>
                statusCode (fst (queryRoute js steps1to4 question False w)) = 200
                \<and> body_success (fst (queryRoute js steps1to4 question False w))
                \<and> body_error (fst (queryRoute js steps1to4 question False w)) = None
                \<and> body_rowCount (fst (queryRoute js steps1to4 question False w)) = Some 0))
    \<and> (success (fst (executeSqlQuery q True w1))
        \<and> data (fst (executeSqlQuery q True w1)) = Some (RowArray rows)
        \<and> serialises js rows \<longrightarrow>
          pq_success (fst (processQuestion js steps1to4 question w))
          \<and> pq_error (fst (processQuestion js steps1to4 question w)) = None
          \<and> (question \<noteq> [] \<and> trim js question \<noteq> [] \<longrightarrow>
                statusCode (fst (queryRoute js steps1to4 question False w)) = 200
                \<and> body_success (fst (queryRoute js steps1to4 question False w))
                \<and> body_error (fst (queryRoute js steps1to4 question False w)) = None))"
proof (intro conjI impI; (elim conjE)?)
  assume failed: "\<not> success (fst (executeSqlQuery q True w1))"
  note f = executeSqlQuery_failure [OF failed]
  from f obtain e where e: "error (fst (executeSqlQuery q True w1)) = Some (errorMessageFor e)"
    by blast
  have resp: "\<forall>qn. \<exists>text. fst (generateResponse js qn q (fst (executeSqlQuery q True w1))
                (snd (executeSqlQuery q True w1))) = Inr text"
    by (simp add: generateResponse_failure [OF failed e])
  note p = pipeline_answered [of steps1to4 w s w1 js q, OF assms resp]
  show "pq_success (fst (processQuestion js steps1to4 question w))"
    by (rule p(1))
  show "pq_error (fst (processQuestion js steps1to4 question w)) = None"
    by (rule p(2))
  from f p(3) [of question]
  show "pq_rowCount (fst (processQuestion js steps1to4 question w)) = Some 0"
    by simp
  from f p(4) [of question]
  show "pq_fromCache (fst (processQuestion js steps1to4 question w)) = Some False"
    by simp
  have "fst (generateResponse js question q (fst (executeSqlQuery q True w1))
                (snd (executeSqlQuery q True w1))) =
      Inr (''I encountered an error while executing your query: '' @ errorMessageFor e
          @ ''. Please try rephrasing your question or contact support if the issue persists.'')"
    by (simp add: generateResponse_failure [OF failed e])
  from processQuestion_executed(6) [of steps1to4 w s w1 js q, OF assms this] e
  show "\<exists>m. error (fst (executeSqlQuery q True w1)) = Some m
          \<and> pq_response (fst (processQuestion js steps1to4 question w)) =
              ''I encountered an error while executing your query: '' @ m
                @ ''. Please try rephrasing your question or contact support if the issue persists.''"
    by simp
  show "statusCode (fst (queryRoute js steps1to4 question False w)) = 200"
    and "body_success (fst (queryRoute js steps1to4 question False w))"
    and "body_error (fst (queryRoute js steps1to4 question False w)) = None"
    and "body_rowCount (fst (queryRoute js steps1to4 question False w)) = Some 0"
    if "question \<noteq> []" "trim js question \<noteq> []"
    using p(5) [OF that] f by simp_all
next
  assume ok: "success (fst (executeSqlQuery q True w1))"
    and d: "data (fst (executeSqlQuery q True w1)) = Some (RowArray rows)"
    and ser: "serialises js rows"
  have resp: "\<forall>qn. \<exists>text. fst (generateResponse js qn q (fst (executeSqlQuery q True w1))
                (snd (executeSqlQuery q True w1))) = Inr text"
    using generateResponse_rows [OF ok d ser] by blast
  note p = pipeline_answered [of steps1to4 w s w1 js q, OF assms resp]
  show "pq_success (fst (processQuestion js steps1to4 question w))"
    by (rule p(1))
  show "pq_error (fst (processQuestion js steps1to4 question w)) = None"
    by (rule p(2))
  show "statusCode (fst (queryRoute js steps1to4 question False w)) = 200"
    and "body_success (fst (queryRoute js steps1to4 question False w))"
    and "body_error (fst (queryRoute js steps1to4 question False w)) = None"
    if "question \<noteq> []" "trim js question \<noteq> []"
    using p(5) [OF that] by simp_all
qed

lemma misspelledQuery_passes_guard:
  "validateAndOptimizeQuery asciiBuiltins misspelledQuery = Inr misspelledQuery"
  by code_simp

lemma misspelledQuery_fails:
  "\<not> success (fst (executeSqlQuery misspelledQuery True freshAgent))"
  by code_simp

lemma companyListQuery_passes_guard:
  "validateAndOptimizeQuery asciiBuiltins companyListQuery = Inr companyListQuery"
  by code_simp

lemma companyListQuery_answer:
  "success (fst (executeSqlQuery companyListQuery True freshAgent))
   \<and> data (fst (executeSqlQuery companyListQuery True freshAgent)) =
       Some (RowArray [''Acme'', ''Globex''])
   \<and> serialises asciiBuiltins [''Acme'', ''Globex'']"
  by code_simp

lemma question_not_blank:
  "''List the companies'' \<noteq> [] \<and> trim asciiBuiltins ''List the companies'' \<noteq> []"
  by code_simp

theorem processQuestion_success_despite_failed_execution_witness:
  "synthesised misspelledQuery freshAgent =
     (Inr \<lparr>s_category = ''Company / Organization'', s_tables = [''company''],
           s_sqlQuery = misspelledQuery\<rparr>, freshAgent)
   \<and> validateAndOptimizeQuery asciiBuiltins misspelledQuery = Inr misspelledQuery
   \<and> ''List the companies'' \<noteq> [] \<and> trim asciiBuiltins ''List the companies'' \<noteq> []
   \<and> \<not> success (fst (executeSqlQuery misspelledQuery True freshAgent))
   \<and> pq_success (fst (processQuestion asciiBuiltins (synthesised misspelledQuery)
                        ''List the companies'' freshAgent))
   \<and> pq_rowCount (fst (processQuestion asciiBuiltins (synthesised misspelledQuery)
                         ''List the companies'' freshAgent)) = Some 0
   \<and> statusCode (fst (queryRoute asciiBuiltins (synthesised misspelledQuery)
                        ''List the companies'' False freshAgent)) = 200
   \<and> synthesised companyListQuery freshAgent =
     (Inr \<lparr>s_category = ''Company / Organization'', s_tables = [''company''],
           s_sqlQuery = companyListQuery\<rparr>, freshAgent)
   \<and> validateAndOptimizeQuery asciiBuiltins companyListQuery = Inr companyListQuery
   \<and> success (fst (executeSqlQuery companyListQuery True freshAgent))
   \<and> data (fst (executeSqlQuery companyListQuery True freshAgent)) =
       Some (RowArray [''Acme'', ''Globex''])
   \<and> serialises asciiBuiltins [''Acme'', ''Globex'']
   \<and> pq_success (fst (processQuestion asciiBuiltins (synthesised companyListQuery)
                        ''List the companies'' freshAgent))
   \<and> statusCode (fst (queryRoute asciiBuiltins (synthesised companyListQuery)
                        ''List the companies'' False freshAgent)) = 200"
proof -
  let ?s = "\<lparr>s_category = ''Company / Organization'', s_tables = [''company''],
           s_sqlQuery = misspelledQuery\<rparr>"
  let ?t = "\<lparr>s_category = ''Company / Organization'', s_tables = [''company''],
           s_sqlQuery = companyListQuery\<rparr>"
  have steps: "synthesised misspelledQuery freshAgent = (Inr ?s, freshAgent)"
    by (simp add: synthesised_def)
  have valid: "validateAndOptimizeQuery asciiBuiltins (s_sqlQuery ?s) = Inr misspelledQuery"
    by (simp add: misspelledQuery_passes_guard)
  have steps': "synthesised companyListQuery freshAgent = (Inr ?t, freshAgent)"
    by (simp add: synthesised_def)
  have valid': "validateAndOptimizeQuery asciiBuiltins (s_sqlQuery ?t) = Inr companyListQuery"
    by (simp add: companyListQuery_passes_guard)
  note c = processQuestion_success_despite_failed_execution
    [of "synthesised misspelledQuery" freshAgent ?s freshAgent asciiBuiltins misspelledQuery
        "''List the companies''" "[]", OF steps valid, THEN conjunct1, rule_format,
     OF misspelledQuery_fails]
  note c' = processQuestion_success_despite_failed_execution
    [of "synthesised companyListQuery" freshAgent ?t freshAgent asciiBuiltins companyListQuery
        "''List the companies''" "[''Acme'', ''Globex'']", OF steps' valid', THEN conjunct2,
     rule_format, OF companyListQuery_answer]
  from c have a: "pq_success (fst (processQuestion asciiBuiltins (synthesised misspelledQuery)
      ''List the companies'' freshAgent))"
    by blast
  from c have b: "pq_rowCount (fst (processQuestion asciiBuiltins (synthesised misspelledQuery)
      ''List the companies'' freshAgent)) = Some 0"
    by blast
  from c question_not_blank
  have d: "statusCode (fst (queryRoute asciiBuiltins (synthesised misspelledQuery)
      ''List the companies'' False freshAgent)) = 200"
    by blast
  from c' have a': "pq_success (fst (processQuestion asciiBuiltins (synthesised companyListQuery)
      ''List the companies'' freshAgent))"
    by blast
  from c' question_not_blank
  have d': "statusCode (fst (queryRoute asciiBuiltins (synthesised companyListQuery)
      ''List the companies'' False freshAgent)) = 200"
    by blast
  from steps misspelledQuery_passes_guard question_not_blank misspelledQuery_fails a b d
    steps' companyListQuery_passes_guard companyListQuery_answer a' d'
  show ?thesis
    by blast
qed




end
